theory Spec2Isabelle
  imports Main "HOL-Library.Word" "HOL-Library.Finite_Map" "HOL-Library.FSet"
    "HOL-Library.List_Lexorder"
begin

unbundle bit_operations_syntax

section \<open>The snapshot diff layer of core/state_prefetcher.go (package snapshot)\<close>

text \<open>
  The second Go file of \<^verbatim>\<open>src/core/state_prefetcher.go\<close> is the in-memory diff layer of the
  state snapshot: \<^verbatim>\<open>diffLayer\<close>, its bloom filter keys, \<^verbatim>\<open>newDiffLayer\<close>, the read path
  (\<^verbatim>\<open>AccountRLP\<close>, \<^verbatim>\<open>Storage\<close>), \<^verbatim>\<open>flatten\<close> and the sorted key views.

  Conventions of the embedding.
  \<^item> \<^verbatim>\<open>common.Hash\<close> is \<^verbatim>\<open>[32]byte\<close>: a list of bytes, of length 32 wherever the bytes are read.
  \<^item> \<^verbatim>\<open>[]byte\<close> may be \<^verbatim>\<open>nil\<close> or a (possibly empty) slice: \<open>None\<close> is \<^verbatim>\<open>nil\<close>.
  \<^item> A Go map is a finite map; \<^verbatim>\<open>range\<close> visits every key once in an unspecified order, and
    every loop of this file computes a result that does not depend on that order (but
    for the account that the panic message of \<^verbatim>\<open>newDiffLayer\<close> names when several
    accounts have \<^verbatim>\<open>nil\<close> slots). The model visits the keys in ascending order. The maps
    of a layer are allocated maps: a \<^verbatim>\<open>nil\<close> map would read like the empty map, and is
    not told apart from it.
  \<^item> A returned \<^verbatim>\<open>error\<close> and a \<^verbatim>\<open>panic\<close> are both \<open>Inl\<close> values, told apart by constructor.
  \<^item> Locks, metrics meters and timers have no effect on returned values and are left out;
    the model is sequential.
\<close>

subsection \<open>Bytes, hashes, blobs, errors\<close>

type_synonym byte = "8 word"
type_synonym hash = "byte list"
type_synonym blob = "byte list option"

definition HashLength :: nat where
  "HashLength = 32"

fun len :: "blob \<Rightarrow> nat" where
  "len None = 0"
| "len (Some bs) = length bs"

text \<open>
  \<open>Panic\<close> carries the message of a \<^verbatim>\<open>panic\<close>; \<open>PanicSprintf\<close> carries the format string
  and the hash argument of a message built with \<^verbatim>\<open>fmt.Sprintf\<close>.
\<close>

datatype error =
    ErrSnapshotStale
  | ErrOther string
  | Panic string
  | PanicSprintf string hash

subsection \<open>Bloom tuning constants and key mixing\<close>

definition aggregatorMemoryLimit :: "64 word" where
  "aggregatorMemoryLimit = 4 * 1024 * 1024"

definition aggregatorItemLimit :: "64 word" where
  "aggregatorItemLimit = aggregatorMemoryLimit div 42"

text \<open>
  The two bloom offsets are package variables written once by \<^verbatim>\<open>init\<close> and read by the two
  hashers. \<^verbatim>\<open>rand.Intn(n)\<close> (math/rand) returns a value in \<open>[0, n)\<close>: the raw output of the
  generator reduced modulo \<open>n\<close>; the raw outputs are the parameters of \<open>init\<close>.
\<close>

record globals =
  bloomAccountHasherOffset :: nat
  bloomStorageHasherOffset :: nat

definition Intn :: "nat \<Rightarrow> nat \<Rightarrow> nat" where
  "Intn raw n = raw mod n"

definition init :: "nat \<Rightarrow> nat \<Rightarrow> globals" where
  "init raw1 raw2 =
     \<lparr> bloomAccountHasherOffset = Intn raw1 25,
       bloomStorageHasherOffset = Intn raw2 25 \<rparr>"

text \<open>
  \<^verbatim>\<open>binary.BigEndian.Uint64(b)\<close> (encoding/binary) is
  \<^verbatim>\<open>uint64(b[7]) | uint64(b[6])<<8 | ... | uint64(b[0])<<56\<close>. Every call below passes a
  slice of exactly eight bytes. \<^verbatim>\<open>h[lo:hi]\<close> on a 32-byte array with \<open>hi \<le> 32\<close> is
  \<open>subslice h lo hi\<close>.
\<close>

definition Uint64 :: "byte list \<Rightarrow> 64 word" where
  "Uint64 b =
     ucast (b ! 7) OR push_bit 8 (ucast (b ! 6)) OR push_bit 16 (ucast (b ! 5))
     OR push_bit 24 (ucast (b ! 4)) OR push_bit 32 (ucast (b ! 3))
     OR push_bit 40 (ucast (b ! 2)) OR push_bit 48 (ucast (b ! 1))
     OR push_bit 56 (ucast (b ! 0))"

definition subslice :: "'a list \<Rightarrow> nat \<Rightarrow> nat \<Rightarrow> 'a list" where
  "subslice xs lo hi = take (hi - lo) (drop lo xs)"

definition accountBloomHash :: "globals \<Rightarrow> hash \<Rightarrow> 64 word" where
  "accountBloomHash g h =
     Uint64 (subslice h (bloomAccountHasherOffset g) (bloomAccountHasherOffset g + 8))"

definition storageBloomHash :: "globals \<Rightarrow> hash \<Rightarrow> hash \<Rightarrow> 64 word" where
  "storageBloomHash g h0 h1 =
     Uint64 (subslice h0 (bloomStorageHasherOffset g) (bloomStorageHasherOffset g + 8))
     XOR Uint64 (subslice h1 (bloomStorageHasherOffset g) (bloomStorageHasherOffset g + 8))"

text \<open>
  The value the specification calls \<open>be_u64\<close>: the eight bytes read as a base-256 numeral,
  most significant byte first.
\<close>

definition be_u64 :: "byte list \<Rightarrow> 64 word" where
  "be_u64 bs = word_of_nat (foldl (\<lambda>acc b. acc * 256 + unat b) 0 bs)"

subsection \<open>The bloom filter and the disk layer\<close>

text \<open>
  \<^verbatim>\<open>bloomfilter.Filter\<close> (github.com/holiman/bloomfilter/v2) is an external library. It is
  modelled by its contract: a filter is a bit array and, fixed when the filter is made
  (\<^verbatim>\<open>New\<close> draws random keys) and kept by \<^verbatim>\<open>Copy\<close>, the positions each 64-bit key
  probes. \<^verbatim>\<open>AddHash\<close> sets the probed bits, \<^verbatim>\<open>ContainsHash\<close> tests them all. The size and
  the number of probes (\<^verbatim>\<open>bloomSize\<close>, \<^verbatim>\<open>bloomFuncs\<close>: floating-point constants) are part
  of the probe function, the parameter of \<open>New\<close>.
\<close>

record Filter =
  probes :: "64 word \<Rightarrow> nat list"
  bits :: "nat set"

definition New :: "(64 word \<Rightarrow> nat list) \<Rightarrow> Filter" where
  "New ps = \<lparr> probes = ps, bits = {} \<rparr>"

definition Copy :: "Filter \<Rightarrow> Filter" where
  "Copy f = f"

definition AddHash :: "64 word \<Rightarrow> Filter \<Rightarrow> Filter" where
  "AddHash h f = f\<lparr> bits := bits f \<union> set (probes f h) \<rparr>"

definition ContainsHash :: "Filter \<Rightarrow> 64 word \<Rightarrow> bool" where
  "ContainsHash f h = list_all (\<lambda>i. i \<in> bits f) (probes f h)"

text \<open>
  \<^verbatim>\<open>diskLayer\<close> is declared in another file of the package. The diff layer uses its two
  point lookups only; they are the fields of the record. A \<^verbatim>\<open>*diskLayer\<close> is never
  \<^verbatim>\<open>nil\<close> here: it is the parent handed to \<^verbatim>\<open>newDiffLayer\<close> or a parent's origin.
\<close>

record diskLayer =
  disk_AccountRLP :: "hash \<Rightarrow> error + blob"
  disk_Storage :: "hash \<Rightarrow> hash \<Rightarrow> error + blob"

subsection \<open>The diff layer\<close>

text \<open>
  The fields of \<^verbatim>\<open>diffLayer\<close>, but for \<^verbatim>\<open>parent\<close> and \<^verbatim>\<open>lock\<close>. \<^verbatim>\<open>accountList\<close> is \<open>None\<close>
  while it is \<^verbatim>\<open>nil\<close>. The \<^verbatim>\<open>parent snapshot\<close> interface value is a disk layer or a diff
  layer; a layer together with its chain of parents is a \<open>snapshot\<close>, and a method of
  \<^verbatim>\<open>*diffLayer\<close> takes the receiver's record and the receiver's parent.

  Map objects are modelled by their contents. Each layer of a chain is taken to own its
  maps when a call starts: the account map, the storage map and each slot map of a layer
  is a map object of its own, shared with no other layer of the chain and no other
  account (the maps handed to \<^verbatim>\<open>newDiffLayer\<close> are such). Where \<^verbatim>\<open>flatten\<close> writes into a
  map that several layers of the chain hold from then on, the model writes to each of
  them (see \<open>written\<close> below).
\<close>

record diffLayer =
  origin :: diskLayer
  memory :: "64 word"
  root :: hash
  stale :: bool
  accountData :: "(hash, blob) fmap"
  storageData :: "(hash, (hash, blob) fmap) fmap"
  accountList :: "hash list option"
  storageList :: "(hash, hash list) fmap"
  diffed :: Filter

datatype snapshot =
    DiskLayer diskLayer
  | DiffLayer diffLayer snapshot

text \<open>The keys of a Go map, as \<^verbatim>\<open>range\<close> or \<^verbatim>\<open>maps.Keys\<close> enumerates them.\<close>

definition Keys :: "('k::linorder, 'v) fmap \<Rightarrow> 'k list" where
  "Keys m = sorted_list_of_fset (fmdom m)"

text \<open>
  \<^verbatim>\<open>rebloom\<close>: store the origin, start from a copy of the parent's filter (parent a diff) or
  from a new filter, add the key of every account and of every slot of the layer.
\<close>

definition rebloom ::
  "globals \<Rightarrow> (64 word \<Rightarrow> nat list) \<Rightarrow> diffLayer \<Rightarrow> snapshot \<Rightarrow> diskLayer \<Rightarrow> diffLayer" where
  "rebloom g fresh dl par origin' =
     (let dl1 = dl\<lparr> origin := origin' \<rparr>;
          f0 = (case par of
                  DiffLayer parent _ \<Rightarrow> Copy (diffed parent)
                | DiskLayer _ \<Rightarrow> New fresh);
          f1 = fold (\<lambda>hash. AddHash (accountBloomHash g hash)) (Keys (accountData dl1)) f0;
          f2 = fold (\<lambda>accountHash.
                  fold (\<lambda>storageHash. AddHash (storageBloomHash g accountHash storageHash))
                    (Keys (the (fmlookup (storageData dl1) accountHash))))
                 (Keys (storageData dl1)) f1
      in dl1\<lparr> diffed := f2 \<rparr>)"

text \<open>
  \<^verbatim>\<open>newDiffLayer\<close>. The \<^verbatim>\<open>storage\<close> argument may hold \<^verbatim>\<open>nil\<close> inner maps (\<open>None\<close>), for which
  the function panics with the message \<^verbatim>\<open>fmt.Sprintf("storage %#x nil", accountHash)\<close>, for
  the first such account that the loop meets (\<open>nilSlots\<close> lists these accounts in the
  order of the loop); the panic comes after \<^verbatim>\<open>rebloom\<close> in the
  source, which has touched nothing but the abandoned new layer by then. Go's struct
  literal leaves \<^verbatim>\<open>origin\<close> and \<^verbatim>\<open>diffed\<close> unset until \<^verbatim>\<open>rebloom\<close> assigns them; the record
  starts with the origin that \<^verbatim>\<open>rebloom\<close> is called with and an empty filter. The
  \<^verbatim>\<open>default\<close> branch of the type switch has no counterpart: a \<open>snapshot\<close> is a disk or a
  diff layer.
\<close>

definition nilSlots :: "(hash, (hash, blob) fmap option) fmap \<Rightarrow> hash list" where
  "nilSlots storage' = filter (\<lambda>accountHash. fmlookup storage' accountHash = Some None) (Keys storage')"

definition newDiffLayer ::
  "globals \<Rightarrow> (64 word \<Rightarrow> nat list) \<Rightarrow> snapshot \<Rightarrow> hash \<Rightarrow> (hash, blob) fmap
     \<Rightarrow> (hash, (hash, blob) fmap option) fmap \<Rightarrow> error + snapshot" where
  "newDiffLayer g fresh par root' accounts storage' =
     (case nilSlots storage' of
        accountHash # _ \<Rightarrow> Inl (PanicSprintf ''storage %#x nil'' accountHash)
      | [] \<Rightarrow>
        let org = (case par of DiskLayer disk \<Rightarrow> disk | DiffLayer parent _ \<Rightarrow> origin parent);
            dl0 = \<lparr> origin = org, memory = 0, root = root', stale = False,
                    accountData = accounts, storageData = fmmap the storage',
                    accountList = None, storageList = fmempty, diffed = New fresh \<rparr>;
            dl1 = rebloom g fresh dl0 par org;
            m1 = fold (\<lambda>hash m. m + word_of_nat (HashLength + len (the (fmlookup accounts hash))))
                   (Keys accounts) (memory dl1);
            m2 = fold (\<lambda>accountHash.
                    fold (\<lambda>storageHash m. m + word_of_nat (HashLength
                            + len (the (fmlookup (the (fmlookup (storageData dl1) accountHash)) storageHash))))
                      (Keys (the (fmlookup (storageData dl1) accountHash))))
                   (Keys (storageData dl1)) m1
        in Inr (DiffLayer (dl1\<lparr> memory := m2 \<rparr>) par))"

text \<open>\<^verbatim>\<open>Update\<close> on a diff layer: the receiver becomes the parent of the new layer.\<close>

definition Update ::
  "globals \<Rightarrow> (64 word \<Rightarrow> nat list) \<Rightarrow> diffLayer \<Rightarrow> snapshot \<Rightarrow> hash \<Rightarrow> (hash, blob) fmap
     \<Rightarrow> (hash, (hash, blob) fmap option) fmap \<Rightarrow> error + snapshot" where
  "Update g fresh dl par blockRoot accounts storage' =
     newDiffLayer g fresh (DiffLayer dl par) blockRoot accounts storage'"

subsection \<open>The read path\<close>

text \<open>
  \<^verbatim>\<open>accountRLP\<close> and \<^verbatim>\<open>storage\<close>: the walk through the maps of the layer and of its diff
  ancestors, down to the disk layer. The \<^verbatim>\<open>depth\<close> argument feeds a histogram only.
\<close>

fun accountRLP :: "diffLayer \<Rightarrow> snapshot \<Rightarrow> hash \<Rightarrow> error + blob" where
  "accountRLP dl par hash =
     (if stale dl then Inl ErrSnapshotStale
      else case fmlookup (accountData dl) hash of
        Some data \<Rightarrow> Inr data
      | None \<Rightarrow>
          (case par of
             DiffLayer diff gp \<Rightarrow> accountRLP diff gp hash
           | DiskLayer disk \<Rightarrow> disk_AccountRLP disk hash))"

fun storage :: "diffLayer \<Rightarrow> snapshot \<Rightarrow> hash \<Rightarrow> hash \<Rightarrow> error + blob" where
  "storage dl par accountHash storageHash =
     (if stale dl then Inl ErrSnapshotStale
      else case (case fmlookup (storageData dl) accountHash of
                   Some slots \<Rightarrow> fmlookup slots storageHash
                 | None \<Rightarrow> None) of
        Some data \<Rightarrow> Inr data
      | None \<Rightarrow>
          (case par of
             DiffLayer diff gp \<Rightarrow> storage diff gp accountHash storageHash
           | DiskLayer disk \<Rightarrow> disk_Storage disk accountHash storageHash))"

text \<open>
  \<^verbatim>\<open>AccountRLP\<close> and \<^verbatim>\<open>Storage\<close>: the stale check, the bloom check, and on a miss the origin
  (\<^verbatim>\<open>origin != nil\<close> exactly when the filter missed).
\<close>

definition AccountRLP :: "globals \<Rightarrow> diffLayer \<Rightarrow> snapshot \<Rightarrow> hash \<Rightarrow> error + blob" where
  "AccountRLP g dl par hash =
     (if stale dl then Inl ErrSnapshotStale
      else
        let hit = ContainsHash (diffed dl) (accountBloomHash g hash);
            origin' = (if \<not> hit then Some (origin dl) else None)
        in case origin' of
             Some disk \<Rightarrow> disk_AccountRLP disk hash
           | None \<Rightarrow> accountRLP dl par hash)"

definition Storage :: "globals \<Rightarrow> diffLayer \<Rightarrow> snapshot \<Rightarrow> hash \<Rightarrow> hash \<Rightarrow> error + blob" where
  "Storage g dl par accountHash storageHash =
     (if stale dl then Inl ErrSnapshotStale
      else
        let hit = ContainsHash (diffed dl) (storageBloomHash g accountHash storageHash);
            origin' = (if \<not> hit then Some (origin dl) else None)
        in case origin' of
             Some disk \<Rightarrow> disk_Storage disk accountHash storageHash
           | None \<Rightarrow> storage dl par accountHash storageHash)"


subsection \<open>Flatten\<close>

text \<open>
  The storage loop of \<^verbatim>\<open>flatten\<close>: an account the parent does not have takes the child's
  slot map, an account in both takes the child's slots over the parent's
  (\<^verbatim>\<open>maps.Copy(dst, src)\<close> is \<open>dst ++\<^sub>f src\<close>).
\<close>

definition mergeStorage ::
  "(hash, (hash, blob) fmap) fmap \<Rightarrow> (hash, (hash, blob) fmap) fmap
     \<Rightarrow> (hash, (hash, blob) fmap) fmap" where
  "mergeStorage pst cst =
     fold (\<lambda>accountHash pst'.
             let slots = the (fmlookup cst accountHash)
             in case fmlookup pst' accountHash of
                  None \<Rightarrow> fmupd accountHash slots pst'
                | Some pslots \<Rightarrow> fmupd accountHash (pslots ++\<^sub>f slots) pst')
          (Keys cst) pst"

text \<open>
  \<^verbatim>\<open>flatten\<close> writes in place. \<^verbatim>\<open>parent.accountData\<close> and \<^verbatim>\<open>parent.storageData\<close> of every
  merge of one call are the two map objects of the bottom-most diff layer of the parent
  chain: the layer built by a merge holds these same objects and is the \<^verbatim>\<open>parent\<close> of the
  next merge. The slot map that \<^verbatim>\<open>parent.storageData[accountHash]\<close> holds is the slot map
  object of the lowest layer of the chain that has the account: line 570 puts the object
  of the layer being merged there when no lower layer has the account, and line 574
  writes into the object that is there. So when the call returns, the bottom-most layer
  holds the maps of the returned layer, and a layer between it and the receiver holds,
  for each of its accounts that no layer below it has, the slot map of the returned
  layer; an account map, a storage map and a slot map of any other kind are not written.
  \<open>written\<close> makes these changes to a parent chain, and sets the stale flag of the
  bottom-most layer, the only layer of the chain that a merge marks.
\<close>

fun storageAccounts :: "snapshot \<Rightarrow> hash fset" where
  "storageAccounts (DiskLayer disk) = {||}"
| "storageAccounts (DiffLayer dl par) = fmdom (storageData dl) |\<union>| storageAccounts par"

fun written ::
  "(hash, blob) fmap \<Rightarrow> (hash, (hash, blob) fmap) fmap \<Rightarrow> snapshot \<Rightarrow> snapshot" where
  "written accounts storage' (DiskLayer disk) = DiskLayer disk"
| "written accounts storage' (DiffLayer dl (DiskLayer disk)) =
     DiffLayer (dl\<lparr> stale := True, accountData := accounts, storageData := storage' \<rparr>)
       (DiskLayer disk)"
| "written accounts storage' (DiffLayer dl (DiffLayer p gp)) =
     DiffLayer
       (dl\<lparr> storageData :=
            fmmap_keys (\<lambda>accountHash slots.
                if accountHash |\<in>| storageAccounts (DiffLayer p gp) then slots
                else (case fmlookup storage' accountHash of
                        Some merged \<Rightarrow> merged
                      | None \<Rightarrow> slots))
              (storageData dl) \<rparr>)
       (written accounts storage' (DiffLayer p gp))"

text \<open>
  \<^verbatim>\<open>flatten\<close> takes the receiver \<open>dl\<close> and its parent chain. It returns the receiver and
  its parent chain as the call leaves them, the returned layer (record and parent), and
  whether the returned layer is the receiver itself, which is so exactly when the parent
  is the disk layer.

  With a diff parent, the parent is flattened first; the layer that call returns
  (\<^verbatim>\<open>parent\<close> from then on) is marked stale and takes the receiver's entries, and a new
  layer is returned. When the recursive call returned the receiver's parent itself, that
  parent is the bottom-most layer; when it returned a new layer, nothing references
  that layer afterwards, and the maps it holds are those of the bottom-most layer. The
  receiver itself is not written: a slot map of the receiver that line 570 puts into the
  parent's storage map is shared from then on, and no later statement of the call
  writes into it.
\<close>

fun flatten ::
  "diffLayer \<Rightarrow> snapshot
     \<Rightarrow> error + ((diffLayer \<times> snapshot) \<times> (diffLayer \<times> snapshot) \<times> bool)" where
  "flatten dl (DiskLayer disk) = Inr ((dl, DiskLayer disk), (dl, DiskLayer disk), True)"
| "flatten dl (DiffLayer p gp) =
     (case flatten p gp of
        Inl err \<Rightarrow> Inl err
      | Inr (_, (parent, ppar), _) \<Rightarrow>
          if stale parent then Inl (Panic ''parent diff layer is stale'')
          else
            let parent' = parent\<lparr> stale := True,
                    accountData := accountData parent ++\<^sub>f accountData dl,
                    storageData := mergeStorage (storageData parent) (storageData dl) \<rparr>
            in Inr ((dl, written (accountData parent') (storageData parent') (DiffLayer p gp)),
                    (\<lparr> origin = origin parent',
                       memory = memory parent' + memory dl,
                       root = root dl,
                       stale = False,
                       accountData = accountData parent',
                       storageData = storageData parent',
                       accountList = None,
                       storageList = fmempty,
                       diffed = diffed dl \<rparr>,
                     ppar),
                    False))"

subsection \<open>Sorted key views\<close>

text \<open>
  Modelled from the spec: \<^verbatim>\<open>common.Hash.Cmp\<close> (package common) is not among the sources.
  Section 3 of the specification gives the order of hashes as the lexicographic order of
  their bytes, which is the order of byte lists here; the result is negative, zero or
  positive.
\<close>

definition Cmp :: "hash \<Rightarrow> hash \<Rightarrow> int" where
  "Cmp x y = (if x < y then - 1 else if x = y then 0 else 1)"

text \<open>
  \<^verbatim>\<open>slices.SortFunc(list, cmp)\<close> (standard library) sorts the list in ascending order as
  determined by \<open>cmp\<close>; it is modelled by insertion sort. The lists sorted here have no
  repeated element.
\<close>

fun insertBy :: "('a \<Rightarrow> 'a \<Rightarrow> int) \<Rightarrow> 'a \<Rightarrow> 'a list \<Rightarrow> 'a list" where
  "insertBy cmp x [] = [x]"
| "insertBy cmp x (y # ys) = (if cmp x y \<le> 0 then x # y # ys else y # insertBy cmp x ys)"

definition SortFunc :: "('a \<Rightarrow> 'a \<Rightarrow> int) \<Rightarrow> 'a list \<Rightarrow> 'a list" where
  "SortFunc cmp xs = foldr (insertBy cmp) xs []"

text \<open>
  \<^verbatim>\<open>AccountList\<close> and \<^verbatim>\<open>StorageList\<close> return the layer as they leave it and the list;
  \<^verbatim>\<open>StorageList\<close> returns \<^verbatim>\<open>nil\<close> (\<open>None\<close>) for an account that the layer does not track.
  Neither reads the stale flag.
\<close>

definition AccountList :: "diffLayer \<Rightarrow> diffLayer \<times> hash list" where
  "AccountList dl =
     (case accountList dl of
        Some list \<Rightarrow> (dl, list)
      | None \<Rightarrow>
          let list = SortFunc Cmp (Keys (accountData dl))
          in (dl\<lparr> accountList := Some list,
                  memory := memory dl + word_of_nat (length list * HashLength) \<rparr>, list))"

definition StorageList :: "diffLayer \<Rightarrow> hash \<Rightarrow> diffLayer \<times> hash list option" where
  "StorageList dl accountHash =
     (case fmlookup (storageData dl) accountHash of
        None \<Rightarrow> (dl, None)
      | Some slots \<Rightarrow>
          (case fmlookup (storageList dl) accountHash of
             Some list \<Rightarrow> (dl, Some list)
           | None \<Rightarrow>
               let list = SortFunc Cmp (Keys slots);
                   cache = fmupd accountHash list (storageList dl)
               in (dl\<lparr> storageList := cache,
                       memory := memory dl
                         + word_of_nat (fcard (fmdom cache) * HashLength + HashLength) \<rparr>,
                   Some list)))"

subsection \<open>Diff chains built by updates\<close>

text \<open>
  One update: the root, the account delta, the storage delta and, for the filter of a
  layer that sits on the disk layer, the probe function of the new filter.
\<close>

type_synonym update =
  "hash \<times> (hash, blob) fmap \<times> (hash, (hash, blob) fmap option) fmap \<times> (64 word \<Rightarrow> nat list)"

fun updates :: "globals \<Rightarrow> snapshot \<Rightarrow> update list \<Rightarrow> error + snapshot" where
  "updates g s [] = Inr s"
| "updates g s ((blockRoot, accounts, storage', fresh) # us) =
     (case newDiffLayer g fresh s blockRoot accounts storage' of
        Inl err \<Rightarrow> Inl err
      | Inr s' \<Rightarrow> updates g s' us)"

subsection \<open>Notions used in the statements\<close>

text \<open>The stale flags of the diff layers of a chain, top first, and the disk layer under it.\<close>

fun stales :: "snapshot \<Rightarrow> bool list" where
  "stales (DiskLayer disk) = []"
| "stales (DiffLayer dl par) = stale dl # stales par"

fun base :: "snapshot \<Rightarrow> diskLayer" where
  "base (DiskLayer disk) = disk"
| "base (DiffLayer dl par) = base par"

text \<open>Every diff layer of the chain has the disk layer under the chain as its origin.\<close>

fun origins_ok :: "snapshot \<Rightarrow> bool" where
  "origins_ok (DiskLayer disk) = True"
| "origins_ok (DiffLayer dl par) = (origin dl = base par \<and> origins_ok par)"

text \<open>
  The bloom keys of the entries of one layer and of a chain of diff layers, and the
  superset property of the filter of the top layer of a chain.
\<close>

definition touched :: "globals \<Rightarrow> diffLayer \<Rightarrow> 64 word set" where
  "touched g dl =
     accountBloomHash g ` fset (fmdom (accountData dl))
     \<union> (\<Union>a \<in> fset (fmdom (storageData dl)).
          storageBloomHash g a ` fset (fmdom (the (fmlookup (storageData dl) a))))"

fun chainTouched :: "globals \<Rightarrow> snapshot \<Rightarrow> 64 word set" where
  "chainTouched g (DiskLayer disk) = {}"
| "chainTouched g (DiffLayer dl par) = touched g dl \<union> chainTouched g par"

fun bloomCovers :: "globals \<Rightarrow> snapshot \<Rightarrow> bool" where
  "bloomCovers g (DiskLayer disk) = True"
| "bloomCovers g (DiffLayer dl par) =
     (\<forall>k \<in> chainTouched g (DiffLayer dl par). ContainsHash (diffed dl) k)"

text \<open>The filters of the diff layers of a chain, top first.\<close>

fun filters :: "snapshot \<Rightarrow> Filter list" where
  "filters (DiskLayer disk) = []"
| "filters (DiffLayer dl par) = diffed dl # filters par"

text \<open>A stale diff layer of the chain sits directly on the disk layer.\<close>

fun staleOnDisk :: "snapshot \<Rightarrow> bool" where
  "staleOnDisk (DiskLayer disk) = True"
| "staleOnDisk (DiffLayer dl par) = ((stale dl \<longrightarrow> stales par = []) \<and> staleOnDisk par)"

subsection \<open>Example data\<close>

text \<open>
  The hash whose 32 bytes all equal \<open>b\<close>; a disk layer that knows nothing and one that
  holds the accounts \<open>hashOf 1\<close> and \<open>hashOf 3\<close>; both bloom offsets 0; filters that probe
  the single bit given by the low byte of the key; a decoder.
\<close>

definition hashOf :: "byte \<Rightarrow> hash" where
  "hashOf b = replicate 32 b"

definition emptyDisk :: diskLayer where
  "emptyDisk = \<lparr> disk_AccountRLP = (\<lambda>_. Inr None), disk_Storage = (\<lambda>_ _. Inr None) \<rparr>"

definition exDisk :: diskLayer where
  "exDisk = \<lparr> disk_AccountRLP = (\<lambda>h. if h = hashOf 1 then Inr (Some [1])
                                   else if h = hashOf 3 then Inr (Some [7]) else Inr None),
              disk_Storage = (\<lambda>_ _. Inr None) \<rparr>"

definition exG :: globals where
  "exG = init 0 0"

definition exProbes :: "64 word \<Rightarrow> nat list" where
  "exProbes k = [unat (k AND 255)]"


text \<open>
  Two updates on top of \<open>exDisk\<close>, and the two layers they build: \<open>exD1\<close> on the disk
  layer, \<open>exD2\<close> on \<open>exD1\<close>. \<open>exD3\<close> is a third layer, on \<open>exD2\<close>.
\<close>

definition exUpdate1 :: update where
  "exUpdate1 = (hashOf 17,
      fmupd (hashOf 1) (Some [2]) (fmupd (hashOf 2) (Some [5]) fmempty),
      fmupd (hashOf 1) (Some (fmupd (hashOf 7) (Some [9]) fmempty)) fmempty,
      exProbes)"

definition exUpdate2 :: update where
  "exUpdate2 = (hashOf 18,
      fmupd (hashOf 1) (Some [3]) (fmupd (hashOf 3) (Some []) fmempty),
      fmupd (hashOf 1) (Some (fmupd (hashOf 7) (Some [8]) fmempty)) fmempty,
      exProbes)"

definition exD1 :: diffLayer where
  "exD1 = \<lparr> origin = exDisk, memory = 99, root = hashOf 17, stale = False,
      accountData = fmupd (hashOf 1) (Some [2]) (fmupd (hashOf 2) (Some [5]) fmempty),
      storageData = fmupd (hashOf 1) (fmupd (hashOf 7) (Some [9]) fmempty) fmempty,
      accountList = None, storageList = fmempty,
      diffed = \<lparr> probes = exProbes, bits = {1, 2, 6} \<rparr> \<rparr>"

definition exD2 :: diffLayer where
  "exD2 = \<lparr> origin = exDisk, memory = 98, root = hashOf 18, stale = False,
      accountData = fmupd (hashOf 1) (Some [3]) (fmupd (hashOf 3) (Some []) fmempty),
      storageData = fmupd (hashOf 1) (fmupd (hashOf 7) (Some [8]) fmempty) fmempty,
      accountList = None, storageList = fmempty,
      diffed = \<lparr> probes = exProbes, bits = {1, 2, 3, 6} \<rparr> \<rparr>"

definition exD3 :: diffLayer where
  "exD3 = \<lparr> origin = exDisk, memory = 33, root = hashOf 20, stale = False,
      accountData = fmupd (hashOf 2) (Some [6]) fmempty,
      storageData = fmempty,
      accountList = None, storageList = fmempty,
      diffed = \<lparr> probes = exProbes, bits = {1, 2, 3, 6} \<rparr> \<rparr>"

text \<open>
  Three more updates on top of \<open>exDisk\<close>, of which only the upper two have slots of the
  account \<open>hashOf 1\<close>, and the three layers they build: \<open>exE3\<close> on \<open>exE2\<close> on \<open>exE1\<close> on the
  disk layer.
\<close>

definition exUpdateE1 :: update where
  "exUpdateE1 = (hashOf 22, fmupd (hashOf 1) (Some [2]) fmempty, fmempty, exProbes)"

definition exUpdateE2 :: update where
  "exUpdateE2 = (hashOf 23, fmempty,
      fmupd (hashOf 1) (Some (fmupd (hashOf 7) (Some [8]) fmempty)) fmempty,
      exProbes)"

definition exUpdateE3 :: update where
  "exUpdateE3 = (hashOf 24, fmempty,
      fmupd (hashOf 1)
        (Some (fmupd (hashOf 4) (Some [5]) (fmupd (hashOf 7) (Some [4]) fmempty))) fmempty,
      exProbes)"

definition exE1 :: diffLayer where
  "exE1 = \<lparr> origin = exDisk, memory = 33, root = hashOf 22, stale = False,
      accountData = fmupd (hashOf 1) (Some [2]) fmempty,
      storageData = fmempty,
      accountList = None, storageList = fmempty,
      diffed = \<lparr> probes = exProbes, bits = {1} \<rparr> \<rparr>"

definition exE2 :: diffLayer where
  "exE2 = \<lparr> origin = exDisk, memory = 33, root = hashOf 23, stale = False,
      accountData = fmempty,
      storageData = fmupd (hashOf 1) (fmupd (hashOf 7) (Some [8]) fmempty) fmempty,
      accountList = None, storageList = fmempty,
      diffed = \<lparr> probes = exProbes, bits = {1, 6} \<rparr> \<rparr>"

definition exE3 :: diffLayer where
  "exE3 = \<lparr> origin = exDisk, memory = 66, root = hashOf 24, stale = False,
      accountData = fmempty,
      storageData = fmupd (hashOf 1)
        (fmupd (hashOf 4) (Some [5]) (fmupd (hashOf 7) (Some [4]) fmempty)) fmempty,
      accountList = None, storageList = fmempty,
      diffed = \<lparr> probes = exProbes, bits = {1, 5, 6} \<rparr> \<rparr>"

text \<open>
  The two lower layers as \<^verbatim>\<open>flatten\<close> on \<open>exE3\<close> leaves them, and the layer it returns: the
  slot map of \<open>exE2\<close> is the one that the merges write into.
\<close>

definition exE1w :: diffLayer where
  "exE1w = \<lparr> origin = exDisk, memory = 33, root = hashOf 22, stale = True,
      accountData = fmupd (hashOf 1) (Some [2]) fmempty,
      storageData = fmupd (hashOf 1)
        (fmupd (hashOf 4) (Some [5]) (fmupd (hashOf 7) (Some [4]) fmempty)) fmempty,
      accountList = None, storageList = fmempty,
      diffed = \<lparr> probes = exProbes, bits = {1} \<rparr> \<rparr>"

definition exE2w :: diffLayer where
  "exE2w = \<lparr> origin = exDisk, memory = 33, root = hashOf 23, stale = False,
      accountData = fmempty,
      storageData = fmupd (hashOf 1)
        (fmupd (hashOf 4) (Some [5]) (fmupd (hashOf 7) (Some [4]) fmempty)) fmempty,
      accountList = None, storageList = fmempty,
      diffed = \<lparr> probes = exProbes, bits = {1, 6} \<rparr> \<rparr>"

definition exE321 :: diffLayer where
  "exE321 = \<lparr> origin = exDisk, memory = 132, root = hashOf 24, stale = False,
      accountData = fmupd (hashOf 1) (Some [2]) fmempty,
      storageData = fmupd (hashOf 1)
        (fmupd (hashOf 4) (Some [5]) (fmupd (hashOf 7) (Some [4]) fmempty)) fmempty,
      accountList = None, storageList = fmempty,
      diffed = \<lparr> probes = exProbes, bits = {1, 5, 6} \<rparr> \<rparr>"


definition exS :: diffLayer where
  "exS = \<lparr> origin = emptyDisk, memory = 99, root = hashOf 21, stale = False,
      accountData = fmempty,
      storageData = fmupd (hashOf 1)
        (fmupd (hashOf 7) (Some [1]) (fmupd (hashOf 8) (Some [2])
          (fmupd (hashOf 9) (Some [3]) fmempty)))
        fmempty,
      accountList = None, storageList = fmempty,
      diffed = \<lparr> probes = exProbes, bits = {6, 9, 8} \<rparr> \<rparr>"

section \<open>Bloom keys\<close>

lemma shift_or_byte: "push_bit 8 (x::64 word) OR ucast (b::byte) = x * 256 + ucast b"
proof -
  have "push_bit 8 x + ucast b = push_bit 8 x OR ucast b"
    by (rule disjunctive_add) (auto simp: bit_simps dest: bit_imp_le_length)
  then show ?thesis by (simp add: push_bit_eq_mult)
qed

lemma Uint64_nested:
  "Uint64 [b0, b1, b2, b3, b4, b5, b6, b7] =
   push_bit 8 (push_bit 8 (push_bit 8 (push_bit 8 (push_bit 8 (push_bit 8 (push_bit 8
     (ucast b0) OR ucast b1) OR ucast b2) OR ucast b3) OR ucast b4) OR ucast b5) OR ucast b6)
     OR ucast b7"
  by (simp add: Uint64_def push_bit_or ac_simps)

lemma Uint64_be_u64:
  assumes "length bs = 8"
  shows "Uint64 bs = be_u64 bs"
proof -
  from assms obtain b0 b1 b2 b3 b4 b5 b6 b7 where bs: "bs = [b0, b1, b2, b3, b4, b5, b6, b7]"
    by (auto simp: length_Suc_conv eval_nat_numeral)
  show ?thesis
    unfolding bs Uint64_nested shift_or_byte by (simp add: be_u64_def)
qed

lemma length_subslice: "hi \<le> length xs \<Longrightarrow> length (subslice xs lo hi) = hi - lo"
  by (simp add: subslice_def)

lemma init_offsets:
  "bloomAccountHasherOffset (init raw1 raw2) \<le> 24"
  "bloomStorageHasherOffset (init raw1 raw2) \<le> 24"
  by (simp_all add: init_def Intn_def)

text \<open>
  C6, as the code has it. Whatever the generator returns, \<^verbatim>\<open>init\<close> leaves both offsets in
  \<open>[0, 24]\<close>; the account key is the big-endian 64-bit integer at the account offset of
  the account hash; the storage key is the XOR of the big-endian 64-bit integers read from
  the account hash and from the slot hash, both at the storage offset.
\<close>

theorem storageBloomHash_windows:
  assumes "length a = HashLength" and "length s = HashLength"
  shows "bloomAccountHasherOffset (init raw1 raw2) \<le> 24
    \<and> bloomStorageHasherOffset (init raw1 raw2) \<le> 24
    \<and> accountBloomHash (init raw1 raw2) a
        = be_u64 (subslice a (bloomAccountHasherOffset (init raw1 raw2))
                             (bloomAccountHasherOffset (init raw1 raw2) + 8))
    \<and> storageBloomHash (init raw1 raw2) a s
        = be_u64 (subslice a (bloomStorageHasherOffset (init raw1 raw2))
                             (bloomStorageHasherOffset (init raw1 raw2) + 8))
          XOR be_u64 (subslice s (bloomStorageHasherOffset (init raw1 raw2))
                                 (bloomStorageHasherOffset (init raw1 raw2) + 8))"
proof -
  let ?g = "init raw1 raw2"
  have oa: "bloomAccountHasherOffset ?g \<le> 24" and os: "bloomStorageHasherOffset ?g \<le> 24"
    by (rule init_offsets)+
  have la: "length (subslice a (bloomAccountHasherOffset ?g) (bloomAccountHasherOffset ?g + 8)) = 8"
    using oa assms by (simp add: length_subslice HashLength_def)
  have lsa: "length (subslice a (bloomStorageHasherOffset ?g) (bloomStorageHasherOffset ?g + 8)) = 8"
    using os assms by (simp add: length_subslice HashLength_def)
  have lss: "length (subslice s (bloomStorageHasherOffset ?g) (bloomStorageHasherOffset ?g + 8)) = 8"
    using os assms by (simp add: length_subslice HashLength_def)
  show ?thesis
    using oa os by (simp add: accountBloomHash_def storageBloomHash_def Uint64_be_u64 la lsa lss)
qed

theorem storageBloomHash_windows_witness:
  "length (hashOf 1) = HashLength \<and> length (hashOf 2) = HashLength
   \<and> storageBloomHash (init 3 30) (hashOf 1) (hashOf 2)
       = be_u64 (subslice (hashOf 1) 5 13) XOR be_u64 (subslice (hashOf 2) 5 13)"
  using storageBloomHash_windows [of "hashOf 1" "hashOf 2" 3 30]
  by (simp add: hashOf_def HashLength_def init_def Intn_def)

text \<open>
  C6 as the specification states it reads the account hash at the account offset. With
  account offset 0 and storage offset 1, an account hash whose first byte is 1 and whose
  other bytes are 0, and the zero slot hash, the storage key is 0, and the stated value
  is \<open>2 ^ 56\<close>.
\<close>

theorem storageBloomHash_account_offset_counterexample:
  "storageBloomHash (init 0 1) (1 # replicate 31 0) (replicate 32 0)
     \<noteq> be_u64 (subslice (1 # replicate 31 0) (bloomAccountHasherOffset (init 0 1))
                                               (bloomAccountHasherOffset (init 0 1) + 8))
        XOR be_u64 (subslice (replicate 32 0) (bloomStorageHasherOffset (init 0 1))
                                              (bloomStorageHasherOffset (init 0 1) + 8))"
proof -
  have "storageBloomHash (init 0 1) (1 # replicate 31 0) (replicate 32 0) = 0"
    by (simp add: storageBloomHash_def init_def Intn_def subslice_def Uint64_def)
  moreover have "be_u64 (subslice (1 # replicate 31 0) (bloomAccountHasherOffset (init 0 1))
      (bloomAccountHasherOffset (init 0 1) + 8)) = 0x0100000000000000"
    by (simp add: Uint64_be_u64 [symmetric] init_def Intn_def subslice_def Uint64_def)
  moreover have "be_u64 (subslice (replicate 32 0) (bloomStorageHasherOffset (init 0 1))
      (bloomStorageHasherOffset (init 0 1) + 8)) = 0"
    by (simp add: Uint64_be_u64 [symmetric] init_def Intn_def subslice_def Uint64_def)
  ultimately show ?thesis by simp
qed

section \<open>Maps, walks and the examples\<close>

lemma set_Keys: "set (Keys m) = fset (fmdom m)"
  by (simp add: Keys_def)

lemma distinct_Keys: "distinct (Keys m)"
  by (simp add: Keys_def sorted_list_of_fset.rep_eq)

lemma insertBy_Cmp: "insertBy Cmp x ys = insort x ys"
  by (induction ys) (auto simp: Cmp_def)

lemma SortFunc_Cmp: "SortFunc Cmp xs = sort xs"
  by (induction xs) (simp_all add: SortFunc_def insertBy_Cmp)

lemma sort_Keys: "SortFunc Cmp (Keys m) = Keys m"
  by (simp add: SortFunc_Cmp Keys_def sorted_list_of_fset.rep_eq sorted_sort_id)

lemma Keys_fmupd:
  "k |\<notin>| fmdom m \<Longrightarrow> Keys (fmupd k v m) = insort k (Keys m)"
  by (simp add: Keys_def sorted_list_of_fset.rep_eq)

lemma Keys_simps [simp]:
  "Keys fmempty = []"
  "Keys (fmupd k v fmempty) = [k]"
  "k1 < k2 \<Longrightarrow> Keys (fmupd k1 v1 (fmupd k2 v2 fmempty)) = [k1, k2]"
  by (auto simp: Keys_def sorted_list_of_fset.rep_eq)

lemma fmmap_fmupd [simp]: "fmmap f (fmupd k v m) = fmupd k (f v) (fmmap f m)"
  by (rule fmap_ext) simp

lemma fmmap_keys_fmupd [simp]:
  "fmmap_keys f (fmupd k v m) = fmupd k (f k v) (fmmap_keys f m)"
  by (rule fmap_ext) simp

lemma fmmap_keys_fmempty [simp]: "fmmap_keys f fmempty = fmempty"
  by (rule fmap_ext) simp

lemma in_fmran_upd [simp]:
  "v |\<in>| fmran (fmupd k w fmempty) \<longleftrightarrow> v = w"
  by (auto simp: fmlookup_ran_iff split: if_splits)

lemma nilSlots_Nil_iff: "nilSlots st = [] \<longleftrightarrow> None |\<notin>| fmran st"
  by (auto simp: nilSlots_def filter_empty_conv set_Keys fmlookup_ran_iff
        dest: fmdomI fmdom_notD)

lemma nilSlots_Nil [simp]: "None |\<notin>| fmran st \<Longrightarrow> nilSlots st = []"
  by (simp add: nilSlots_Nil_iff)

text \<open>The storage loop of flatten, entry by entry.\<close>

lemma mergeStep_lookup:
  assumes "distinct ks"
  shows "fmlookup (fold (\<lambda>accountHash pst'.
             let slots = the (fmlookup cst accountHash)
             in case fmlookup pst' accountHash of
                  None \<Rightarrow> fmupd accountHash slots pst'
                | Some pslots \<Rightarrow> fmupd accountHash (pslots ++\<^sub>f slots) pst') ks pst) a
   = (if a \<in> set ks
      then (case fmlookup pst a of
              None \<Rightarrow> Some (the (fmlookup cst a))
            | Some pslots \<Rightarrow> Some (pslots ++\<^sub>f the (fmlookup cst a)))
      else fmlookup pst a)"
  using assms
proof (induction ks arbitrary: pst)
  case Nil
  then show ?case by simp
next
  case (Cons k ks)
  then show ?case
    by (auto simp: Let_def split: option.splits)
qed

lemma mergeStorage_lookup:
  "fmlookup (mergeStorage pst cst) a =
     (case fmlookup cst a of
        None \<Rightarrow> fmlookup pst a
      | Some slots \<Rightarrow>
          (case fmlookup pst a of
             None \<Rightarrow> Some slots
           | Some pslots \<Rightarrow> Some (pslots ++\<^sub>f slots)))"
  unfolding mergeStorage_def
  by (simp add: mergeStep_lookup [OF distinct_Keys] set_Keys fmlookup_dom_iff split: option.splits)

text \<open>One step of each walk, by the kind of the parent.\<close>

declare accountRLP.simps [simp del] storage.simps [simp del]

lemma accountRLP_DiffLayer:
  "accountRLP dl (DiffLayer p gp) h =
     (if stale dl then Inl ErrSnapshotStale
      else case fmlookup (accountData dl) h of
             Some data \<Rightarrow> Inr data
           | None \<Rightarrow> accountRLP p gp h)"
  by (simp add: accountRLP.simps [of dl] split: option.splits)

lemma accountRLP_DiskLayer:
  "accountRLP dl (DiskLayer disk) h =
     (if stale dl then Inl ErrSnapshotStale
      else case fmlookup (accountData dl) h of
             Some data \<Rightarrow> Inr data
           | None \<Rightarrow> disk_AccountRLP disk h)"
  by (simp add: accountRLP.simps [of dl] split: option.splits)

lemma storage_DiffLayer:
  "storage dl (DiffLayer p gp) a s =
     (if stale dl then Inl ErrSnapshotStale
      else case (case fmlookup (storageData dl) a of
                   Some slots \<Rightarrow> fmlookup slots s
                 | None \<Rightarrow> None) of
             Some data \<Rightarrow> Inr data
           | None \<Rightarrow> storage p gp a s)"
  by (simp add: storage.simps [of dl] split: option.splits)

lemma storage_DiskLayer:
  "storage dl (DiskLayer disk) a s =
     (if stale dl then Inl ErrSnapshotStale
      else case (case fmlookup (storageData dl) a of
                   Some slots \<Rightarrow> fmlookup slots s
                 | None \<Rightarrow> None) of
             Some data \<Rightarrow> Inr data
           | None \<Rightarrow> disk_Storage disk a s)"
  by (simp add: storage.simps [of dl] split: option.splits)

text \<open>The example hashes are ordered as their bytes, and their bloom keys repeat the byte.\<close>

lemma hashOf_eq [simp]: "hashOf a = hashOf b \<longleftrightarrow> a = b"
  by (simp add: hashOf_def)

lemma replicate_less: "replicate n a < replicate n (b::'a::linorder) \<longleftrightarrow> 0 < n \<and> a < b"
  by (induction n) auto

lemma hashOf_less [simp]: "hashOf a < hashOf b \<longleftrightarrow> a < b"
  by (simp add: hashOf_def replicate_less)

lemma hashOf_le [simp]: "hashOf a \<le> hashOf b \<longleftrightarrow> a \<le> b"
  by (auto simp: le_less)

lemma exG_keys [simp]:
  "accountBloomHash exG (hashOf b) = ucast b * 0x0101010101010101"
  "storageBloomHash exG (hashOf a) (hashOf b)
     = (ucast a * 0x0101010101010101) XOR (ucast b * 0x0101010101010101)"
proof -
  have r8: "replicate 8 x = [x, x, x, x, x, x, x, x]" for x :: byte
    by (simp add: numeral_nat)
  have u: "Uint64 (replicate 8 x) = ucast x * 0x0101010101010101" for x :: byte
    unfolding r8 Uint64_nested shift_or_byte by simp
  show "accountBloomHash exG (hashOf b) = ucast b * 0x0101010101010101"
    by (simp add: accountBloomHash_def exG_def init_def Intn_def subslice_def hashOf_def u)
  show "storageBloomHash exG (hashOf a) (hashOf b)
     = (ucast a * 0x0101010101010101) XOR (ucast b * 0x0101010101010101)"
    by (simp add: storageBloomHash_def exG_def init_def Intn_def subslice_def hashOf_def u)
qed

text \<open>The two example updates build the two example layers: filters and memory included.\<close>

lemma ex_newDiffLayer1:
  "newDiffLayer exG exProbes (DiskLayer exDisk) (hashOf 17)
      (fmupd (hashOf 1) (Some [2]) (fmupd (hashOf 2) (Some [5]) fmempty))
      (fmupd (hashOf 1) (Some (fmupd (hashOf 7) (Some [9]) fmempty)) fmempty)
   = Inr (DiffLayer exD1 (DiskLayer exDisk))"
  by (auto simp add: newDiffLayer_def Let_def rebloom_def exD1_def New_def AddHash_def
      exProbes_def HashLength_def)

lemma ex_updates:
  "updates exG (DiskLayer exDisk) [exUpdate1, exUpdate2]
     = Inr (DiffLayer exD2 (DiffLayer exD1 (DiskLayer exDisk)))"
  by (auto simp add: exUpdate1_def exUpdate2_def newDiffLayer_def Let_def rebloom_def
      exD1_def exD2_def New_def AddHash_def Copy_def exProbes_def HashLength_def)

text \<open>A \<^verbatim>\<open>nil\<close> slot map makes \<^verbatim>\<open>newDiffLayer\<close> panic, and the message names the account.\<close>

lemma ex_newDiffLayer_nil:
  "newDiffLayer exG exProbes (DiskLayer exDisk) (hashOf 17) fmempty
      (fmupd (hashOf 1) None (fmupd (hashOf 2) (Some fmempty) fmempty))
   = Inl (PanicSprintf ''storage %#x nil'' (hashOf 1))"
  by (simp add: newDiffLayer_def nilSlots_def)

text \<open>So do the three updates of the second example chain.\<close>

lemma ex_updatesE:
  "updates exG (DiskLayer exDisk) [exUpdateE1, exUpdateE2, exUpdateE3]
     = Inr (DiffLayer exE3 (DiffLayer exE2 (DiffLayer exE1 (DiskLayer exDisk))))"
  by (auto simp add: exUpdateE1_def exUpdateE2_def exUpdateE3_def newDiffLayer_def Let_def
      rebloom_def exE1_def exE2_def exE3_def New_def AddHash_def Copy_def exProbes_def
      HashLength_def)

section \<open>Construction\<close>

lemma ContainsHash_iff: "ContainsHash f k \<longleftrightarrow> set (probes f k) \<subseteq> bits f"
  by (auto simp: ContainsHash_def list_all_iff)

lemma fold_AddHash:
  "probes (fold (\<lambda>x. AddHash (key x)) xs f) = probes f"
  "bits (fold (\<lambda>x. AddHash (key x)) xs f) = bits f \<union> (\<Union>x \<in> set xs. set (probes f (key x)))"
  by (induction xs arbitrary: f) (auto simp: AddHash_def)

lemma fold_fold_AddHash:
  "probes (fold (\<lambda>a. fold (\<lambda>s. AddHash (key a s)) (ks a)) as f) = probes f"
  "bits (fold (\<lambda>a. fold (\<lambda>s. AddHash (key a s)) (ks a)) as f)
     = bits f \<union> (\<Union>a \<in> set as. \<Union>s \<in> set (ks a). set (probes f (key a s)))"
  by (induction as arbitrary: f) (auto simp: fold_AddHash)

lemma rebloom_fields:
  "origin (rebloom g fresh dl par org) = org"
  "stale (rebloom g fresh dl par org) = stale dl"
  "accountData (rebloom g fresh dl par org) = accountData dl"
  "storageData (rebloom g fresh dl par org) = storageData dl"
  "accountList (rebloom g fresh dl par org) = accountList dl"
  "storageList (rebloom g fresh dl par org) = storageList dl"
  "root (rebloom g fresh dl par org) = root dl"
  "memory (rebloom g fresh dl par org) = memory dl"
  by (simp_all add: rebloom_def Let_def)

lemma rebloom_touched:
  assumes "k \<in> touched g dl"
  shows "ContainsHash (diffed (rebloom g fresh dl par org)) k"
  using assms
  by (auto simp: rebloom_def Let_def ContainsHash_iff touched_def fold_fold_AddHash fold_AddHash
      set_Keys)

lemma rebloom_parent:
  assumes "ContainsHash (diffed p) k"
  shows "ContainsHash (diffed (rebloom g fresh dl (DiffLayer p gp) org)) k"
  using assms
  by (auto simp: rebloom_def Let_def ContainsHash_iff fold_fold_AddHash fold_AddHash Copy_def)

text \<open>What a successful \<^verbatim>\<open>newDiffLayer\<close> returns.\<close>

lemma newDiffLayer_Inr:
  assumes "newDiffLayer g fresh par r a st = Inr s"
  obtains dl where "s = DiffLayer dl par" "\<not> stale dl" "accountData dl = a"
    "storageData dl = fmmap the st" "accountList dl = None" "storageList dl = fmempty"
    "root dl = r"
    "origin dl = (case par of DiskLayer disk \<Rightarrow> disk | DiffLayer parent _ \<Rightarrow> origin parent)"
    "\<forall>k \<in> touched g dl. ContainsHash (diffed dl) k"
    "\<forall>p gp k. par = DiffLayer p gp \<longrightarrow> ContainsHash (diffed p) k \<longrightarrow> ContainsHash (diffed dl) k"
    "None |\<notin>| fmran st"
proof -
  from assms have nn: "None |\<notin>| fmran st"
    by (auto simp: newDiffLayer_def nilSlots_Nil_iff [symmetric] split: list.splits)
  let ?org = "case par of DiskLayer disk \<Rightarrow> disk | DiffLayer parent _ \<Rightarrow> origin parent"
  let ?dl0 = "\<lparr> origin = ?org, memory = 0, root = r, stale = False,
                    accountData = a, storageData = fmmap the st,
                    accountList = None, storageList = fmempty, diffed = New fresh \<rparr>"
  let ?dl1 = "rebloom g fresh ?dl0 par ?org"
  from assms nn obtain m where s: "s = DiffLayer (?dl1\<lparr> memory := m \<rparr>) par"
    by (auto simp: newDiffLayer_def Let_def)
  have t: "touched g (?dl1\<lparr> memory := m \<rparr>) = touched g ?dl0"
    by (simp add: touched_def rebloom_fields)
  show ?thesis
  proof (rule that [OF s])
    show "\<forall>k \<in> touched g (?dl1\<lparr> memory := m \<rparr>). ContainsHash (diffed (?dl1\<lparr> memory := m \<rparr>)) k"
      unfolding t by (simp add: rebloom_touched)
    show "\<forall>p gp k. par = DiffLayer p gp \<longrightarrow> ContainsHash (diffed p) k
        \<longrightarrow> ContainsHash (diffed (?dl1\<lparr> memory := m \<rparr>)) k"
      by (auto simp: rebloom_parent)
  qed (simp_all add: rebloom_fields nn)
qed

lemma newDiffLayer_bloomCovers:
  assumes "bloomCovers g par" and "newDiffLayer g fresh par r a st = Inr s"
  shows "bloomCovers g s"
proof -
  from assms(2) obtain dl where s: "s = DiffLayer dl par"
    and t: "\<forall>k \<in> touched g dl. ContainsHash (diffed dl) k"
    and p: "\<forall>p gp k. par = DiffLayer p gp \<longrightarrow> ContainsHash (diffed p) k \<longrightarrow> ContainsHash (diffed dl) k"
    by (rule newDiffLayer_Inr)
  show ?thesis
  proof (cases par)
    case (DiskLayer disk)
    then show ?thesis using s t by simp
  next
    case (DiffLayer p gp)
    then show ?thesis using s t p assms(1) by auto
  qed
qed

lemma newDiffLayer_live:
  assumes "True \<notin> set (stales par)" and "origins_ok par"
    and "newDiffLayer g fresh par r a st = Inr s"
  shows "True \<notin> set (stales s) \<and> origins_ok s \<and> base s = base par"
proof -
  from assms(3) obtain dl where s: "s = DiffLayer dl par" and n: "\<not> stale dl"
    and o: "origin dl = (case par of DiskLayer disk \<Rightarrow> disk | DiffLayer parent _ \<Rightarrow> origin parent)"
    by (rule newDiffLayer_Inr)
  show ?thesis
    using assms(1,2) s n o by (cases par) auto
qed

lemma newDiffLayer_staleOnDisk:
  assumes "staleOnDisk par" and "newDiffLayer g fresh par r a st = Inr s"
  shows "staleOnDisk s"
proof -
  from assms(2) obtain dl where "s = DiffLayer dl par" "\<not> stale dl"
    by (rule newDiffLayer_Inr)
  with assms(1) show ?thesis by simp
qed

text \<open>
  A chain built by updates alone: no layer is stale, every origin is the disk layer under
  the chain, and the filter of the top layer covers the chain.
\<close>

lemma updates_inv:
  assumes "updates g s0 us = Inr s"
    and "True \<notin> set (stales s0)" and "origins_ok s0" and "bloomCovers g s0"
  shows "True \<notin> set (stales s) \<and> origins_ok s \<and> bloomCovers g s \<and> base s = base s0"
  using assms
proof (induction us arbitrary: s0)
  case Nil
  then show ?case by simp
next
  case (Cons u us)
  obtain r a st fresh where u: "u = (r, a, st, fresh)"
    by (cases u) auto
  from Cons.prems(1) obtain s1 where
    n: "newDiffLayer g fresh s0 r a st = Inr s1" and rest: "updates g s1 us = Inr s"
    by (auto simp: u split: sum.splits)
  from newDiffLayer_live [OF Cons.prems(2,3) n] newDiffLayer_bloomCovers [OF Cons.prems(4) n]
  have "True \<notin> set (stales s1)" "origins_ok s1" "bloomCovers g s1" "base s1 = base s0"
    by simp_all
  with Cons.IH [OF rest] show ?case by simp
qed

section \<open>Flatten\<close>

text \<open>
  The writes of \<^verbatim>\<open>flatten\<close> to a parent chain set the stale flag of its bottom-most diff
  layer and no other flag, and leave origins alone.
\<close>

lemma stales_written:
  "stales (written accounts storage' s)
     = (if stales s = [] then [] else (stales s)[length (stales s) - 1 := True])"
  by (induction accounts storage' s rule: written.induct) (auto split: if_splits)

lemma base_written: "base (written accounts storage' s) = base s"
  by (induction accounts storage' s rule: written.induct) auto

lemma origins_ok_written: "origins_ok (written accounts storage' s) = origins_ok s"
  by (induction accounts storage' s rule: written.induct) (auto simp: base_written)

text \<open>
  On a chain without stale layers whose origins agree, \<^verbatim>\<open>flatten\<close> succeeds, and the layer
  it returns sits on the disk layer, is live, keeps the origin and the filter of the
  receiver, and walks to the same values as the receiver did.
\<close>

lemma flatten_live:
  assumes "True \<notin> set (stales (DiffLayer dl par))" and "origins_ok (DiffLayer dl par)"
  shows "\<exists>par' r same.
           flatten dl par = Inr ((dl, par'), (r, DiskLayer (base par)), same)
           \<and> \<not> stale r \<and> origin r = origin dl \<and> diffed r = diffed dl
           \<and> (\<forall>h. accountRLP r (DiskLayer (base par)) h = accountRLP dl par h)
           \<and> (\<forall>a s. storage r (DiskLayer (base par)) a s = storage dl par a s)"
  using assms
proof (induction par arbitrary: dl)
  case (DiskLayer disk)
  then show ?case by auto
next
  case (DiffLayer p gp)
  from DiffLayer.prems have live: "True \<notin> set (stales (DiffLayer p gp))"
    and ok: "origins_ok (DiffLayer p gp)" and ndl: "\<not> stale dl"
    and odl: "origin dl = base gp" and op: "origin p = base gp"
    by auto
  from DiffLayer.IH [OF live ok] obtain gp1 f same0 where
    fl: "flatten p gp = Inr ((p, gp1), (f, DiskLayer (base gp)), same0)"
    and nf: "\<not> stale f" and orf: "origin f = origin p"
    and acc: "\<And>h. accountRLP f (DiskLayer (base gp)) h = accountRLP p gp h"
    and sto: "\<And>a s. storage f (DiskLayer (base gp)) a s = storage p gp a s"
    by blast
  let ?r = "\<lparr> origin = origin f,
             memory = memory f + memory dl,
             root = root dl,
             stale = False,
             accountData = accountData f ++\<^sub>f accountData dl,
             storageData = mergeStorage (storageData f) (storageData dl),
             accountList = None,
             storageList = fmempty,
             diffed = diffed dl \<rparr>"
  have res: "flatten dl (DiffLayer p gp)
      = Inr ((dl, written (accountData f ++\<^sub>f accountData dl)
                    (mergeStorage (storageData f) (storageData dl)) (DiffLayer p gp)),
             (?r, DiskLayer (base gp)), False)"
    using fl nf by (simp add: Let_def)
  have a: "accountRLP ?r (DiskLayer (base gp)) h = accountRLP dl (DiffLayer p gp) h" for h
  proof -
    have "accountRLP dl (DiffLayer p gp) h =
        (case fmlookup (accountData dl) h of Some data \<Rightarrow> Inr data
         | None \<Rightarrow> accountRLP f (DiskLayer (base gp)) h)"
      using ndl by (simp add: accountRLP_DiffLayer acc split: option.splits)
    then show ?thesis
      using nf by (simp add: accountRLP_DiskLayer fmlookup_dom_iff split: option.splits)
  qed
  have s: "storage ?r (DiskLayer (base gp)) a s = storage dl (DiffLayer p gp) a s" for a s
  proof -
    have "storage dl (DiffLayer p gp) a s =
        (case (case fmlookup (storageData dl) a of
                   Some slots \<Rightarrow> fmlookup slots s
                 | None \<Rightarrow> None) of Some data \<Rightarrow> Inr data
         | None \<Rightarrow> storage f (DiskLayer (base gp)) a s)"
      using ndl by (simp add: storage_DiffLayer sto split: option.splits)
    then show ?thesis
      using nf by (auto simp: storage_DiskLayer mergeStorage_lookup
          fmlookup_dom_iff split: option.splits)
  qed
  show ?case
    unfolding res using a s orf op odl by auto
qed

text \<open>
  What a successful \<^verbatim>\<open>flatten\<close> leaves behind: the receiver as it was; with a diff parent,
  the stale flag of the bottom-most diff layer of the parent chain set (it was clear) and
  every other flag of the chain as before, and a live returned layer with empty caches.
\<close>

lemma flatten_frame:
  assumes "flatten dl par = Inr ((dl', par'), (r, rpar), same)"
  shows "dl' = dl \<and> (same \<longleftrightarrow> stales par = []) \<and> rpar = DiskLayer (base par)
     \<and> (stales par = [] \<longrightarrow> par' = par \<and> r = dl)
     \<and> (stales par \<noteq> [] \<longrightarrow>
          stales par' = (stales par)[length (stales par) - 1 := True]
          \<and> \<not> last (stales par)
          \<and> \<not> stale r \<and> accountList r = None \<and> storageList r = fmempty)"
  using assms
proof (induction par arbitrary: dl dl' par' r rpar same)
  case (DiskLayer disk)
  then show ?case by auto
next
  case (DiffLayer p gp)
  from DiffLayer.prems obtain p1 gp1 parent ppar same0 where
    fl: "flatten p gp = Inr ((p1, gp1), (parent, ppar), same0)"
    by (auto split: sum.splits)
  from DiffLayer.IH [OF fl] have ih: "ppar = DiskLayer (base gp)"
    "stales gp = [] \<longrightarrow> parent = p"
    "stales gp \<noteq> [] \<longrightarrow> \<not> last (stales gp)"
    by simp_all
  from DiffLayer.prems fl have ns: "\<not> stale parent"
    by (auto split: if_splits)
  from ih(2,3) ns have nl: "\<not> last (stales (DiffLayer p gp))"
    by auto
  from DiffLayer.prems fl ns obtain accounts storage' where
    par': "par' = written accounts storage' (DiffLayer p gp)"
    and rest: "dl' = dl" "\<not> same" "rpar = ppar" "\<not> stale r" "accountList r = None"
      "storageList r = fmempty"
    by (auto simp: Let_def)
  have "stales par' = (stales (DiffLayer p gp))[length (stales (DiffLayer p gp)) - 1 := True]"
    unfolding par' stales_written by simp
  with nl rest ih(1) show ?case
    by simp
qed

text \<open>\<^verbatim>\<open>flatten\<close> on a layer whose parent sits on the disk layer, in one step.\<close>

lemma flatten_parent_on_disk:
  "flatten dl (DiffLayer p (DiskLayer disk)) =
     (if stale p then Inl (Panic ''parent diff layer is stale'')
      else Inr ((dl, DiffLayer (p\<lparr> stale := True,
                     accountData := accountData p ++\<^sub>f accountData dl,
                     storageData := mergeStorage (storageData p) (storageData dl) \<rparr>)
                   (DiskLayer disk)),
                (\<lparr> origin = origin p,
                   memory = memory p + memory dl,
                   root = root dl,
                   stale = False,
                   accountData = accountData p ++\<^sub>f accountData dl,
                   storageData = mergeStorage (storageData p) (storageData dl),
                   accountList = None,
                   storageList = fmempty,
                   diffed = diffed dl \<rparr>,
                 DiskLayer disk),
                False))"
  by (simp add: Let_def)

text \<open>A stale bottom-most diff layer makes \<^verbatim>\<open>flatten\<close> panic, from any layer above it.\<close>

lemma flatten_bottom_stale:
  assumes "stales par \<noteq> []" and "last (stales par)"
  shows "flatten dl par = Inl (Panic ''parent diff layer is stale'')"
  using assms
proof (induction par arbitrary: dl)
  case (DiskLayer disk)
  then show ?case by simp
next
  case (DiffLayer p gp)
  show ?case
  proof (cases "stales gp = []")
    case True
    then obtain disk where "gp = DiskLayer disk" by (cases gp) auto
    with DiffLayer.prems show ?thesis by simp
  next
    case False
    with DiffLayer.prems have "last (stales gp)" by simp
    from DiffLayer.IH [OF False this] show ?thesis by simp
  qed
qed

lemma set_last_True:
  "xs \<noteq> [] \<Longrightarrow> xs[length xs - 1 := True] \<noteq> [] \<and> last (xs[length xs - 1 := True])"
  by (simp add: last_list_update)

text \<open>Stale layers sit on the disk layer: kept by \<^verbatim>\<open>newDiffLayer\<close> (above) and by \<^verbatim>\<open>flatten\<close>.\<close>

lemma staleOnDisk_butlast: "staleOnDisk s \<longleftrightarrow> True \<notin> set (butlast (stales s))"
  by (induction s) auto

lemma flatten_staleOnDisk:
  assumes "staleOnDisk (DiffLayer dl par)"
    and "flatten dl par = Inr ((dl', par'), (r, rpar), same)"
  shows "staleOnDisk (DiffLayer dl' par') \<and> staleOnDisk (DiffLayer r rpar)"
proof -
  note fr = flatten_frame [OF assms(2)]
  show ?thesis
  proof (cases "stales par = []")
    case True
    with fr assms(1) show ?thesis by simp
  next
    case False
    with fr have s: "stales par' = (stales par)[length (stales par) - 1 := True]"
      and d: "dl' = dl" and r: "rpar = DiskLayer (base par)" "\<not> stale r"
      by simp_all
    from assms(1) False have nd: "\<not> stale dl" by auto
    from assms(1) have "staleOnDisk par" by simp
    then have "True \<notin> set (butlast (stales par))"
      using staleOnDisk_butlast by blast
    then have "True \<notin> set (butlast (stales par'))"
      by (simp add: s butlast_list_update)
    then show ?thesis
      using nd d r by (simp add: staleOnDisk_butlast)
  qed
qed

text \<open>The entries of the returned layer are entries of the chain it was flattened from.\<close>

lemma touched_iff:
  "k \<in> touched g dl \<longleftrightarrow>
     (\<exists>h. h |\<in>| fmdom (accountData dl) \<and> k = accountBloomHash g h)
     \<or> (\<exists>a m s. fmlookup (storageData dl) a = Some m \<and> s |\<in>| fmdom m
           \<and> k = storageBloomHash g a s)"
proof -
  have "(\<exists>a \<in> fset (fmdom (storageData dl)).
            k \<in> storageBloomHash g a ` fset (fmdom (the (fmlookup (storageData dl) a))))
        \<longleftrightarrow> (\<exists>a m s. fmlookup (storageData dl) a = Some m \<and> s |\<in>| fmdom m
              \<and> k = storageBloomHash g a s)"
  proof
    assume "\<exists>a \<in> fset (fmdom (storageData dl)).
            k \<in> storageBloomHash g a ` fset (fmdom (the (fmlookup (storageData dl) a)))"
    then obtain a s where a: "a |\<in>| fmdom (storageData dl)"
      and s: "s |\<in>| fmdom (the (fmlookup (storageData dl) a))" and k: "k = storageBloomHash g a s"
      by auto
    from a obtain m where "fmlookup (storageData dl) a = Some m"
      by (auto simp: fmlookup_dom_iff)
    with s k show "\<exists>a m s. fmlookup (storageData dl) a = Some m \<and> s |\<in>| fmdom m
              \<and> k = storageBloomHash g a s" by auto
  next
    assume "\<exists>a m s. fmlookup (storageData dl) a = Some m \<and> s |\<in>| fmdom m
              \<and> k = storageBloomHash g a s"
    then obtain a m s where m: "fmlookup (storageData dl) a = Some m" and s: "s |\<in>| fmdom m"
      and k: "k = storageBloomHash g a s" by blast
    from m have "a \<in> fset (fmdom (storageData dl))" by (simp add: fmdomI)
    moreover from m s k
    have "k \<in> storageBloomHash g a ` fset (fmdom (the (fmlookup (storageData dl) a)))"
      by simp
    ultimately show "\<exists>a \<in> fset (fmdom (storageData dl)).
            k \<in> storageBloomHash g a ` fset (fmdom (the (fmlookup (storageData dl) a)))" by blast
  qed
  then show ?thesis
    by (auto simp: touched_def)
qed

lemma touched_merged:
  assumes "accountData r = accountData parent ++\<^sub>f accountData dl"
    and "storageData r = mergeStorage (storageData parent) (storageData dl)"
  shows "touched g r \<subseteq> touched g parent \<union> touched g dl"
proof
  fix k assume "k \<in> touched g r"
  then consider h where "h |\<in>| fmdom (accountData r)" "k = accountBloomHash g h"
    | a m s where "fmlookup (storageData r) a = Some m" "s |\<in>| fmdom m" "k = storageBloomHash g a s"
    by (auto simp: touched_iff)
  then show "k \<in> touched g parent \<union> touched g dl"
  proof cases
    case 1
    then show ?thesis by (auto simp: assms touched_iff)
  next
    case 2
    from 2(1,2) have "(\<exists>m'. fmlookup (storageData parent) a = Some m' \<and> s |\<in>| fmdom m')
        \<or> (\<exists>m'. fmlookup (storageData dl) a = Some m' \<and> s |\<in>| fmdom m')"
      by (auto simp: assms mergeStorage_lookup split: option.splits)
    then have "k \<in> touched g parent \<or> k \<in> touched g dl"
      unfolding touched_iff [of k] using 2(3) by blast
    then show ?thesis by simp
  qed
qed

lemma touched_written_bottom:
  "touched g (dl\<lparr> stale := True, accountData := accountData r, storageData := storageData r \<rparr>)
     = touched g r"
  by (simp add: touched_def)

lemma touched_written_middle:
  "touched g (dl\<lparr> storageData :=
        fmmap_keys (\<lambda>accountHash slots.
            if accountHash |\<in>| below then slots
            else (case fmlookup (storageData r) accountHash of
                    Some merged \<Rightarrow> merged
                  | None \<Rightarrow> slots))
          (storageData dl) \<rparr>)
     \<subseteq> touched g dl \<union> touched g r"
proof
  fix k
  let ?dl' = "dl\<lparr> storageData :=
        fmmap_keys (\<lambda>accountHash slots.
            if accountHash |\<in>| below then slots
            else (case fmlookup (storageData r) accountHash of
                    Some merged \<Rightarrow> merged
                  | None \<Rightarrow> slots))
          (storageData dl) \<rparr>"
  assume "k \<in> touched g ?dl'"
  then have "(\<exists>h. h |\<in>| fmdom (accountData ?dl') \<and> k = accountBloomHash g h)
      \<or> (\<exists>a m s. fmlookup (storageData ?dl') a = Some m \<and> s |\<in>| fmdom m
            \<and> k = storageBloomHash g a s)"
    by (simp only: touched_iff)
  then show "k \<in> touched g dl \<union> touched g r"
  proof (elim disjE exE conjE)
    fix h
    assume "h |\<in>| fmdom (accountData ?dl')" "k = accountBloomHash g h"
    then show ?thesis by (auto simp: touched_iff)
  next
    fix a m s
    assume m: "fmlookup (storageData ?dl') a = Some m" and s: "s |\<in>| fmdom m"
      and k: "k = storageBloomHash g a s"
    from m s have "(\<exists>m'. fmlookup (storageData dl) a = Some m' \<and> s |\<in>| fmdom m')
        \<or> (\<exists>m'. fmlookup (storageData r) a = Some m' \<and> s |\<in>| fmdom m')"
      by (auto split: option.splits if_splits)
    then have "k \<in> touched g dl \<or> k \<in> touched g r"
      unfolding touched_iff [of k] using k by blast
    then show ?thesis by simp
  qed
qed

lemma chainTouched_written:
  assumes "touched g r \<subseteq> X" and "chainTouched g s \<subseteq> X"
  shows "chainTouched g (written (accountData r) (storageData r) s) \<subseteq> X"
  using assms(2)
proof (induction "accountData r" "storageData r" s rule: written.induct)
  case (1 disk)
  then show ?case by simp
next
  case (2 dl disk)
  with assms(1) show ?case
    by (simp add: touched_written_bottom)
next
  case (3 dl p gp)
  from 3 have "chainTouched g (written (accountData r) (storageData r) (DiffLayer p gp)) \<subseteq> X"
    and "touched g dl \<subseteq> X"
    by simp_all
  with touched_written_middle [where g = g and dl = dl and r = r
      and below = "storageAccounts (DiffLayer p gp)"] assms(1)
  show ?case
    by (simp only: written.simps chainTouched.simps) blast
qed

lemma flatten_touched:
  assumes "flatten dl par = Inr ((dl', par'), (r, rpar), same)"
  shows "diffed r = diffed dl \<and> touched g r \<subseteq> chainTouched g (DiffLayer dl par)
     \<and> chainTouched g par' \<subseteq> chainTouched g (DiffLayer dl par)"
  using assms
proof (induction par arbitrary: dl dl' par' r rpar same)
  case (DiskLayer disk)
  then show ?case by auto
next
  case (DiffLayer p gp)
  from DiffLayer.prems obtain p1 gp1 parent ppar same0 where
    fl: "flatten p gp = Inr ((p1, gp1), (parent, ppar), same0)"
    by (auto split: sum.splits)
  from DiffLayer.IH [OF fl] have ih: "touched g parent \<subseteq> chainTouched g (DiffLayer p gp)"
    by simp
  from DiffLayer.prems fl have r: "diffed r = diffed dl"
    "accountData r = accountData parent ++\<^sub>f accountData dl"
    "storageData r = mergeStorage (storageData parent) (storageData dl)"
    and par': "par' = written (accountData r) (storageData r) (DiffLayer p gp)"
    by (auto simp: Let_def split: if_splits)
  from touched_merged [OF r(2,3)] ih
  have t: "touched g r \<subseteq> chainTouched g (DiffLayer dl (DiffLayer p gp))"
    by auto
  have "chainTouched g (DiffLayer p gp) \<subseteq> chainTouched g (DiffLayer dl (DiffLayer p gp))"
    by auto
  from chainTouched_written [OF t this] r(1) t show ?case
    unfolding par' by simp
qed

text \<open>
  \<^verbatim>\<open>flatten\<close> succeeds exactly when the bottom-most diff layer of the parent chain is not
  stale, and it writes no filter of the chain.
\<close>

lemma flatten_succeeds:
  assumes "stales par = [] \<or> \<not> last (stales par)"
  shows "\<exists>par' r. flatten dl par = Inr ((dl, par'), (r, DiskLayer (base par)), stales par = [])"
  using assms
proof (induction par arbitrary: dl)
  case (DiskLayer disk)
  then show ?case by simp
next
  case (DiffLayer p gp)
  then have "stales gp = [] \<or> \<not> last (stales gp)"
    by (auto split: if_splits)
  from DiffLayer.IH [OF this] obtain gp1 parent where
    fl: "flatten p gp = Inr ((p, gp1), (parent, DiskLayer (base gp)), stales gp = [])"
    by blast
  have ns: "\<not> stale parent"
  proof (cases "stales gp = []")
    case True
    with flatten_frame [OF fl] DiffLayer.prems show ?thesis by simp
  next
    case False
    with flatten_frame [OF fl] show ?thesis by simp
  qed
  with fl show ?case
    by (simp add: Let_def)
qed

lemma filters_written: "filters (written accounts storage' s) = filters s"
  by (induction accounts storage' s rule: written.induct) auto

lemma flatten_filters:
  assumes "flatten dl par = Inr ((dl', par'), (r, rpar), same)"
  shows "filters (DiffLayer dl' par') = filters (DiffLayer dl par)"
proof (cases par)
  case (DiskLayer disk)
  with assms show ?thesis by auto
next
  case (DiffLayer p gp)
  with assms obtain accounts storage' where "dl' = dl"
    "par' = written accounts storage' (DiffLayer p gp)"
    by (auto simp: Let_def split: sum.splits if_splits)
  with DiffLayer show ?thesis
    by (simp only: filters_written filters.simps)
qed

text \<open>
  The second example chain: the merges of \<^verbatim>\<open>flatten\<close> on \<open>exE3\<close> write the slots of \<open>exE3\<close>
  into the slot map of the middle layer \<open>exE2\<close>, which stays live.
\<close>

lemma ex_flattenE:
  "flatten exE3 (DiffLayer exE2 (DiffLayer exE1 (DiskLayer exDisk)))
     = Inr ((exE3, DiffLayer exE2w (DiffLayer exE1w (DiskLayer exDisk))),
            (exE321, DiskLayer exDisk), False)"
  by (simp add: Let_def exE1_def exE2_def exE3_def exE1w_def exE2w_def exE321_def
      mergeStorage_def)

text \<open>Stale layers sit on the disk layer along a sequence of updates.\<close>

lemma updates_staleOnDisk:
  assumes "updates g s0 us = Inr s" and "staleOnDisk s0"
  shows "staleOnDisk s"
  using assms
proof (induction us arbitrary: s0)
  case Nil
  then show ?case by simp
next
  case (Cons u us)
  obtain r a st fresh where u: "u = (r, a, st, fresh)"
    by (cases u) auto
  from Cons.prems(1) obtain s1 where
    n: "newDiffLayer g fresh s0 r a st = Inr s1" and rest: "updates g s1 us = Inr s"
    by (auto simp: u split: sum.splits)
  from Cons.IH [OF rest newDiffLayer_staleOnDisk [OF Cons.prems(2) n]] show ?case .
qed

section \<open>The claims\<close>

subsection \<open>C1: flatten keeps every read\<close>

text \<open>
  C1. Take any chain of diff layers built by a sequence of updates on a disk layer (a
  branch of the diff tree), with top layer \<open>dl\<close> over the chain \<open>par\<close>. Then \<^verbatim>\<open>flatten\<close> of
  \<open>dl\<close> succeeds, and the layer it returns answers every account read and every storage
  read exactly as \<open>dl\<close> over \<open>par\<close> did before the call. In particular, for an account held
  by both \<open>dl\<close> and its parent, and for a slot held by both, the returned layer answers
  with the value of \<open>dl\<close>, the child.
\<close>

theorem flatten_observational_equivalence:
  assumes "updates g (DiskLayer disk) us = Inr (DiffLayer dl par)"
  shows "\<exists>par' r rpar same.
     flatten dl par = Inr ((dl, par'), (r, rpar), same)
     \<and> (\<forall>h. AccountRLP g r rpar h = AccountRLP g dl par h)
     \<and> (\<forall>a s. Storage g r rpar a s = Storage g dl par a s)
     \<and> (\<forall>p gp h. par = DiffLayer p gp \<longrightarrow> h |\<in>| fmdom (accountData dl)
           \<longrightarrow> h |\<in>| fmdom (accountData p)
           \<longrightarrow> AccountRLP g r rpar h = Inr (the (fmlookup (accountData dl) h)))
     \<and> (\<forall>p gp a s cs ps. par = DiffLayer p gp \<longrightarrow> fmlookup (storageData dl) a = Some cs
           \<longrightarrow> fmlookup (storageData p) a = Some ps \<longrightarrow> s |\<in>| fmdom cs \<longrightarrow> s |\<in>| fmdom ps
           \<longrightarrow> Storage g r rpar a s = Inr (the (fmlookup cs s)))"
proof -
  from updates_inv [OF assms] have live: "True \<notin> set (stales (DiffLayer dl par))"
    and ok: "origins_ok (DiffLayer dl par)" and cov: "bloomCovers g (DiffLayer dl par)"
    by simp_all
  from flatten_live [OF live ok] obtain par' r same where
    fl: "flatten dl par = Inr ((dl, par'), (r, DiskLayer (base par)), same)"
    and r: "\<not> stale r" "origin r = origin dl" "diffed r = diffed dl"
    and acc: "\<And>h. accountRLP r (DiskLayer (base par)) h = accountRLP dl par h"
    and sto: "\<And>a s. storage r (DiskLayer (base par)) a s = storage dl par a s"
    by blast
  from live have ndl: "\<not> stale dl" by simp
  have A: "AccountRLP g r (DiskLayer (base par)) h = AccountRLP g dl par h" for h
    using r ndl by (simp add: AccountRLP_def acc)
  have S: "Storage g r (DiskLayer (base par)) a s = Storage g dl par a s" for a s
    using r ndl by (simp add: Storage_def sto)
  have CA: "AccountRLP g dl par h = Inr (the (fmlookup (accountData dl) h))"
    if "h |\<in>| fmdom (accountData dl)" for h
  proof -
    from that have "accountBloomHash g h \<in> touched g dl"
      by (auto simp: touched_def)
    with cov have "ContainsHash (diffed dl) (accountBloomHash g h)" by simp
    moreover from that obtain v where "fmlookup (accountData dl) h = Some v"
      by (auto simp: fmlookup_dom_iff)
    ultimately show ?thesis
      using ndl by (simp add: AccountRLP_def accountRLP.simps [of dl])
  qed
  have CS: "Storage g dl par a s = Inr (the (fmlookup cs s))"
    if "fmlookup (storageData dl) a = Some cs" and "s |\<in>| fmdom cs" for a s cs
  proof -
    from that have "storageBloomHash g a s \<in> touched g dl"
      by (auto simp: touched_def intro!: fmdomI bexI [of _ a])
    with cov have "ContainsHash (diffed dl) (storageBloomHash g a s)" by simp
    moreover from that obtain v where "fmlookup cs s = Some v"
      by (auto simp: fmlookup_dom_iff)
    ultimately show ?thesis
      using ndl that by (simp add: Storage_def storage.simps [of dl])
  qed
  have WA: "AccountRLP g r (DiskLayer (base par)) h = Inr (the (fmlookup (accountData dl) h))"
    if "h |\<in>| fmdom (accountData dl)" for h
    using that by (simp add: A CA)
  have WS: "Storage g r (DiskLayer (base par)) a s = Inr (the (fmlookup cs s))"
    if "fmlookup (storageData dl) a = Some cs" and "s |\<in>| fmdom cs" for a s cs
    using that by (simp add: S CS)
  show ?thesis
    by (intro exI conjI allI impI, rule fl) (use A S WA WS in auto)
qed

theorem flatten_observational_equivalence_witness:
  "updates exG (DiskLayer exDisk) [exUpdate1, exUpdate2]
      = Inr (DiffLayer exD2 (DiffLayer exD1 (DiskLayer exDisk)))
   \<and> (\<exists>par' r rpar same.
        flatten exD2 (DiffLayer exD1 (DiskLayer exDisk)) = Inr ((exD2, par'), (r, rpar), same)
        \<and> AccountRLP exG r rpar (hashOf 1) = Inr (Some [3])
        \<and> AccountRLP exG r rpar (hashOf 2)
            = AccountRLP exG exD2 (DiffLayer exD1 (DiskLayer exDisk)) (hashOf 2)
        \<and> Storage exG r rpar (hashOf 1) (hashOf 7) = Inr (Some [8]))"
proof -
  from flatten_observational_equivalence [OF ex_updates] obtain par' r rpar same where
    fl: "flatten exD2 (DiffLayer exD1 (DiskLayer exDisk)) = Inr ((exD2, par'), (r, rpar), same)"
    and A: "\<And>h. AccountRLP exG r rpar h
        = AccountRLP exG exD2 (DiffLayer exD1 (DiskLayer exDisk)) h"
    and CA: "\<And>p gp h. DiffLayer exD1 (DiskLayer exDisk) = DiffLayer p gp
           \<Longrightarrow> h |\<in>| fmdom (accountData exD2) \<Longrightarrow> h |\<in>| fmdom (accountData p)
           \<Longrightarrow> AccountRLP exG r rpar h = Inr (the (fmlookup (accountData exD2) h))"
    and CS: "\<And>p gp a s cs ps. DiffLayer exD1 (DiskLayer exDisk) = DiffLayer p gp
           \<Longrightarrow> fmlookup (storageData exD2) a = Some cs
           \<Longrightarrow> fmlookup (storageData p) a = Some ps \<Longrightarrow> s |\<in>| fmdom cs \<Longrightarrow> s |\<in>| fmdom ps
           \<Longrightarrow> Storage exG r rpar a s = Inr (the (fmlookup cs s))"
    by blast
  have "AccountRLP exG r rpar (hashOf 1) = Inr (Some [3])"
    using CA [OF refl, of "hashOf 1"] by (simp add: exD1_def exD2_def)
  moreover have "Storage exG r rpar (hashOf 1) (hashOf 7) = Inr (Some [8])"
    using CS [OF refl, of "hashOf 1" "fmupd (hashOf 7) (Some [8]) fmempty"
        "fmupd (hashOf 7) (Some [9]) fmempty" "hashOf 7"] by (simp add: exD1_def exD2_def)
  ultimately show ?thesis
    using ex_updates fl A by blast
qed

subsection \<open>C2: reads of a stale layer\<close>





subsection \<open>C3: the filter covers the chain\<close>

text \<open>
  C3, as the code has it. The filter of a diff layer contains the bloom key of every
  account and of every slot held by the layer and by its diff ancestors down to the disk
  layer: this holds for the top layer of every chain built by updates on a disk layer;
  \<^verbatim>\<open>newDiffLayer\<close> and \<^verbatim>\<open>Update\<close> on a parent for which it holds return a layer for which it
  holds; after \<^verbatim>\<open>flatten\<close> on a receiver for which it holds, it holds for the returned layer
  and for the receiver over its parent chain as the call left it, and every filter of
  the chain is as it was; \<^verbatim>\<open>AccountList\<close> and \<^verbatim>\<open>StorageList\<close> keep it. For the layers of the
  parent chain that \<^verbatim>\<open>flatten\<close> writes into it is not kept: see the counterexample below.
\<close>

theorem bloom_superset:
  "(updates g (DiskLayer disk) us = Inr s \<longrightarrow> bloomCovers g s)
   \<and> (bloomCovers g par \<and> newDiffLayer g fresh par blockRoot accounts storage' = Inr s'
        \<longrightarrow> bloomCovers g s')
   \<and> (bloomCovers g (DiffLayer dl par)
        \<and> Update g fresh dl par blockRoot accounts storage' = Inr s'
        \<longrightarrow> bloomCovers g s')
   \<and> (bloomCovers g (DiffLayer dl par) \<and> flatten dl par = Inr ((dl', par'), (r, rpar), same)
        \<longrightarrow> bloomCovers g (DiffLayer r rpar) \<and> bloomCovers g (DiffLayer dl' par')
          \<and> filters (DiffLayer dl' par') = filters (DiffLayer dl par))
   \<and> (bloomCovers g (DiffLayer dl par)
        \<longrightarrow> bloomCovers g (DiffLayer (fst (AccountList dl)) par)
          \<and> bloomCovers g (DiffLayer (fst (StorageList dl a)) par))"
proof (intro conjI impI)
  assume "updates g (DiskLayer disk) us = Inr s"
  from updates_inv [OF this] show "bloomCovers g s" by simp
next
  assume "bloomCovers g par \<and> newDiffLayer g fresh par blockRoot accounts storage' = Inr s'"
  then show "bloomCovers g s'" by (auto intro: newDiffLayer_bloomCovers)
next
  assume "bloomCovers g (DiffLayer dl par)
        \<and> Update g fresh dl par blockRoot accounts storage' = Inr s'"
  then show "bloomCovers g s'"
    unfolding Update_def by (blast intro: newDiffLayer_bloomCovers)
next
  assume a: "bloomCovers g (DiffLayer dl par) \<and> flatten dl par = Inr ((dl', par'), (r, rpar), same)"
  then have f: "flatten dl par = Inr ((dl', par'), (r, rpar), same)" by simp
  from flatten_frame [OF f] have e: "rpar = DiskLayer (base par)" "dl' = dl" by simp_all
  from flatten_touched [OF f, of g] a e show "bloomCovers g (DiffLayer r rpar)" by auto
  from flatten_touched [OF f, of g] a e show "bloomCovers g (DiffLayer dl' par')" by auto
  from f show "filters (DiffLayer dl' par') = filters (DiffLayer dl par)"
    by (rule flatten_filters)
next
  assume a: "bloomCovers g (DiffLayer dl par)"
  have "touched g (fst (AccountList dl)) = touched g dl" "diffed (fst (AccountList dl)) = diffed dl"
    by (simp_all add: AccountList_def touched_def Let_def split: option.splits)
  with a show "bloomCovers g (DiffLayer (fst (AccountList dl)) par)" by simp
  have "touched g (fst (StorageList dl a)) = touched g dl" "diffed (fst (StorageList dl a)) = diffed dl"
    by (simp_all add: StorageList_def touched_def Let_def split: option.splits)
  with a show "bloomCovers g (DiffLayer (fst (StorageList dl a)) par)" by simp
qed

theorem bloom_superset_witness:
  "updates exG (DiskLayer exDisk) [exUpdate1, exUpdate2]
      = Inr (DiffLayer exD2 (DiffLayer exD1 (DiskLayer exDisk)))
   \<and> bloomCovers exG (DiffLayer exD2 (DiffLayer exD1 (DiskLayer exDisk)))
   \<and> accountBloomHash exG (hashOf 2)
       \<in> chainTouched exG (DiffLayer exD2 (DiffLayer exD1 (DiskLayer exDisk)))
   \<and> ContainsHash (diffed exD2) (accountBloomHash exG (hashOf 2))
   \<and> ContainsHash (diffed exD2) (storageBloomHash exG (hashOf 1) (hashOf 7))
   \<and> flatten exE3 (DiffLayer exE2 (DiffLayer exE1 (DiskLayer exDisk)))
      = Inr ((exE3, DiffLayer exE2w (DiffLayer exE1w (DiskLayer exDisk))),
             (exE321, DiskLayer exDisk), False)
   \<and> bloomCovers exG (DiffLayer exE3 (DiffLayer exE2 (DiffLayer exE1 (DiskLayer exDisk))))
   \<and> bloomCovers exG (DiffLayer exE321 (DiskLayer exDisk))
   \<and> bloomCovers exG (DiffLayer exE3 (DiffLayer exE2w (DiffLayer exE1w (DiskLayer exDisk))))
   \<and> filters (DiffLayer exE3 (DiffLayer exE2w (DiffLayer exE1w (DiskLayer exDisk))))
      = filters (DiffLayer exE3 (DiffLayer exE2 (DiffLayer exE1 (DiskLayer exDisk))))"
proof -
  have c: "bloomCovers exG (DiffLayer exD2 (DiffLayer exD1 (DiskLayer exDisk)))"
    by (rule bloom_superset [THEN conjunct1, rule_format, OF ex_updates])
  have k: "accountBloomHash exG (hashOf 2)
      \<in> chainTouched exG (DiffLayer exD2 (DiffLayer exD1 (DiskLayer exDisk)))"
    "storageBloomHash exG (hashOf 1) (hashOf 7)
      \<in> chainTouched exG (DiffLayer exD2 (DiffLayer exD1 (DiskLayer exDisk)))"
    by (simp_all add: touched_def exD1_def exD2_def)
  with c have h: "ContainsHash (diffed exD2) (accountBloomHash exG (hashOf 2))"
    "ContainsHash (diffed exD2) (storageBloomHash exG (hashOf 1) (hashOf 7))"
    by (simp_all del: exG_keys)
  have e: "bloomCovers exG (DiffLayer exE3 (DiffLayer exE2 (DiffLayer exE1 (DiskLayer exDisk))))"
    by (rule bloom_superset [THEN conjunct1, rule_format, OF ex_updatesE])
  from bloom_superset [THEN conjunct2, THEN conjunct2, THEN conjunct2, THEN conjunct1,
      rule_format, OF conjI, OF e ex_flattenE]
  have "bloomCovers exG (DiffLayer exE321 (DiskLayer exDisk))"
    "bloomCovers exG (DiffLayer exE3 (DiffLayer exE2w (DiffLayer exE1w (DiskLayer exDisk))))"
    "filters (DiffLayer exE3 (DiffLayer exE2w (DiffLayer exE1w (DiskLayer exDisk))))
      = filters (DiffLayer exE3 (DiffLayer exE2 (DiffLayer exE1 (DiskLayer exDisk))))"
    by blast+
  with c k h e ex_updates ex_flattenE show ?thesis by simp
qed

text \<open>
  C3 as stated has every operation keep the property for every layer. \<^verbatim>\<open>flatten\<close> writes
  into layers of the parent chain and into none of their filters. The three updates of
  the second example chain build \<open>exE3\<close> on \<open>exE2\<close> on \<open>exE1\<close>, and the filter of \<open>exE2\<close>
  covers \<open>exE2\<close> and \<open>exE1\<close>; \<^verbatim>\<open>flatten\<close> on \<open>exE3\<close> leaves \<open>exE2\<close> live and holding the slot
  \<open>hashOf 4\<close> of the account \<open>hashOf 1\<close>, whose bloom key the filter of \<open>exE2\<close> does not
  contain. With \<open>exD2\<close> on \<open>exD1\<close>, the layer \<open>exD1\<close> that \<^verbatim>\<open>flatten\<close> on \<open>exD2\<close> merges into
  (stale from then on) no longer has the property either.
\<close>

theorem bloom_flatten_written_counterexample:
  "updates exG (DiskLayer exDisk) [exUpdateE1, exUpdateE2, exUpdateE3]
      = Inr (DiffLayer exE3 (DiffLayer exE2 (DiffLayer exE1 (DiskLayer exDisk))))
   \<and> bloomCovers exG (DiffLayer exE2 (DiffLayer exE1 (DiskLayer exDisk)))
   \<and> flatten exE3 (DiffLayer exE2 (DiffLayer exE1 (DiskLayer exDisk)))
      = Inr ((exE3, DiffLayer exE2w (DiffLayer exE1w (DiskLayer exDisk))),
             (exE321, DiskLayer exDisk), False)
   \<and> \<not> stale exE2w
   \<and> storageBloomHash exG (hashOf 1) (hashOf 4) \<in> touched exG exE2w
   \<and> \<not> ContainsHash (diffed exE2w) (storageBloomHash exG (hashOf 1) (hashOf 4))
   \<and> \<not> bloomCovers exG (DiffLayer exE2w (DiffLayer exE1w (DiskLayer exDisk)))
   \<and> bloomCovers exG (DiffLayer exD1 (DiskLayer exDisk))
   \<and> map_sum id (bloomCovers exG \<circ> snd \<circ> fst)
        (flatten exD2 (DiffLayer exD1 (DiskLayer exDisk))) = Inr False"
proof -
  have a: "bloomCovers exG (DiffLayer exE2 (DiffLayer exE1 (DiskLayer exDisk)))"
    by (simp add: touched_def exE1_def exE2_def ContainsHash_def exProbes_def)
  have b: "\<not> stale exE2w"
    "storageBloomHash exG (hashOf 1) (hashOf 4) \<in> touched exG exE2w"
    "\<not> ContainsHash (diffed exE2w) (storageBloomHash exG (hashOf 1) (hashOf 4))"
    by (simp_all add: touched_def exE2w_def ContainsHash_def exProbes_def)
  from b(2,3) have c: "\<not> bloomCovers exG (DiffLayer exE2w (DiffLayer exE1w (DiskLayer exDisk)))"
    by (auto simp del: exG_keys)
  have d: "bloomCovers exG (DiffLayer exD1 (DiskLayer exDisk))"
    by (simp add: touched_def exD1_def ContainsHash_def exProbes_def)
  have "accountBloomHash exG (hashOf 3)
      \<in> touched exG (exD1\<lparr> stale := True,
           accountData := accountData exD1 ++\<^sub>f accountData exD2,
           storageData := mergeStorage (storageData exD1) (storageData exD2) \<rparr>)"
    "\<not> ContainsHash (diffed exD1) (accountBloomHash exG (hashOf 3))"
    by (simp_all add: touched_def exD1_def exD2_def ContainsHash_def exProbes_def)
  then have e: "map_sum id (bloomCovers exG \<circ> snd \<circ> fst)
        (flatten exD2 (DiffLayer exD1 (DiskLayer exDisk))) = Inr False"
    by (auto simp add: flatten_parent_on_disk exD1_def simp del: exG_keys)
  from ex_updatesE ex_flattenE a b c d e show ?thesis by blast
qed

subsection \<open>C4: a bloom miss goes to the origin\<close>

text \<open>
  C4. On a live layer, when the filter does not contain the bloom key of the queried
  account (of the queried account and slot), \<^verbatim>\<open>AccountRLP\<close> (\<^verbatim>\<open>Storage\<close>) returns what the
  lookup of the origin disk layer returns: whatever the account and storage maps of the
  layer hold and whatever its chain of parents is.
\<close>

theorem bloom_miss_reads_origin:
  assumes "\<not> stale dl"
  shows "(\<not> ContainsHash (diffed dl) (accountBloomHash g hash) \<longrightarrow>
            AccountRLP g dl par hash = disk_AccountRLP (origin dl) hash
          \<and> AccountRLP g (dl\<lparr> accountData := ad, storageData := sd \<rparr>) par' hash
              = disk_AccountRLP (origin dl) hash)
       \<and> (\<not> ContainsHash (diffed dl) (storageBloomHash g a s) \<longrightarrow>
            Storage g dl par a s = disk_Storage (origin dl) a s
          \<and> Storage g (dl\<lparr> accountData := ad, storageData := sd \<rparr>) par' a s
              = disk_Storage (origin dl) a s)"
  using assms by (simp add: AccountRLP_def Storage_def)

theorem bloom_miss_reads_origin_witness:
  "newDiffLayer exG exProbes (DiskLayer exDisk) (hashOf 17)
      (fmupd (hashOf 1) (Some [2]) (fmupd (hashOf 2) (Some [5]) fmempty))
      (fmupd (hashOf 1) (Some (fmupd (hashOf 7) (Some [9]) fmempty)) fmempty)
     = Inr (DiffLayer exD1 (DiskLayer exDisk))
   \<and> \<not> stale exD1
   \<and> \<not> ContainsHash (diffed exD1) (accountBloomHash exG (hashOf 3))
   \<and> AccountRLP exG exD1 (DiskLayer exDisk) (hashOf 3) = Inr (Some [7])
   \<and> \<not> ContainsHash (diffed exD1) (storageBloomHash exG (hashOf 1) (hashOf 8))
   \<and> Storage exG exD1 (DiskLayer exDisk) (hashOf 1) (hashOf 8) = Inr None"
proof -
  have n: "\<not> stale exD1" by (simp add: exD1_def)
  have ma: "\<not> ContainsHash (diffed exD1) (accountBloomHash exG (hashOf 3))"
    by (simp add: exD1_def ContainsHash_def exProbes_def)
  have ms: "\<not> ContainsHash (diffed exD1) (storageBloomHash exG (hashOf 1) (hashOf 8))"
    by (simp add: exD1_def ContainsHash_def exProbes_def)
  have o: "disk_AccountRLP (origin exD1) (hashOf 3) = Inr (Some [7])"
    "disk_Storage (origin exD1) (hashOf 1) (hashOf 8) = Inr None"
    by (simp_all add: exD1_def exDisk_def)
  from bloom_miss_reads_origin [OF n, of exG "hashOf 3" "DiskLayer exDisk" _ _ _ "hashOf 1" "hashOf 8"]
  show ?thesis
    using n ma ms o ex_newDiffLayer1 by simp
qed

subsection \<open>C5: a second flatten into the same parent\<close>

text \<open>
  C5, as the code has it, in the sequential model. The flag that \<^verbatim>\<open>flatten\<close> tests and sets
  is the stale flag of the layer it merges into, and among the layers of the chain that
  is the bottom-most diff layer of the parent chain: the parent itself when the parent
  sits on the disk layer, and not the parent otherwise. When that flag is already set
  the call panics with "parent diff layer is stale", and nothing is returned; when it is
  clear the call succeeds, and leaves that flag set and every other flag of the chain as
  it was; and after one successful \<^verbatim>\<open>flatten\<close> through a parent chain, \<^verbatim>\<open>flatten\<close> from any
  other child of the same parent panics. So of two flattens into the same parent, one
  after the other, at most one succeeds.
\<close>

theorem flatten_twice_panics:
  "(last (stales (DiffLayer p gp))
      \<longrightarrow> flatten dl (DiffLayer p gp) = Inl (Panic ''parent diff layer is stale''))
   \<and> (\<not> last (stales (DiffLayer p gp))
      \<longrightarrow> (\<exists>par' r. flatten dl (DiffLayer p gp)
                        = Inr ((dl, par'), (r, DiskLayer (base gp)), False)
            \<and> stales par' = (stales (DiffLayer p gp))[length (stales gp) := True]))
   \<and> (stale p \<longrightarrow> flatten dl (DiffLayer p (DiskLayer disk))
                      = Inl (Panic ''parent diff layer is stale''))
   \<and> (\<not> stale p \<longrightarrow> (\<exists>par' r. flatten dl (DiffLayer p (DiskLayer disk))
                        = Inr ((dl, par'), (r, DiskLayer disk), False)
            \<and> stales par' = [True]))
   \<and> (flatten d1 (DiffLayer p gp) = Inr ((d1', par1), res1, same1)
      \<longrightarrow> flatten d2 par1 = Inl (Panic ''parent diff layer is stale''))"
proof (intro conjI impI)
  assume "last (stales (DiffLayer p gp))"
  then show "flatten dl (DiffLayer p gp) = Inl (Panic ''parent diff layer is stale'')"
    by (intro flatten_bottom_stale) simp_all
next
  assume "\<not> last (stales (DiffLayer p gp))"
  then have "stales (DiffLayer p gp) = [] \<or> \<not> last (stales (DiffLayer p gp))" by simp
  from flatten_succeeds [OF this, of dl] obtain par' r where
    f: "flatten dl (DiffLayer p gp) = Inr ((dl, par'), (r, DiskLayer (base gp)), False)"
    by auto
  from flatten_frame [OF f]
  have "stales par' = (stales (DiffLayer p gp))[length (stales gp) := True]" by simp
  with f show "\<exists>par' r. flatten dl (DiffLayer p gp)
                        = Inr ((dl, par'), (r, DiskLayer (base gp)), False)
            \<and> stales par' = (stales (DiffLayer p gp))[length (stales gp) := True]"
    by blast
next
  assume "stale p"
  then show "flatten dl (DiffLayer p (DiskLayer disk))
      = Inl (Panic ''parent diff layer is stale'')"
    by (simp add: flatten_parent_on_disk)
next
  assume "\<not> stale p"
  then show "\<exists>par' r. flatten dl (DiffLayer p (DiskLayer disk))
                        = Inr ((dl, par'), (r, DiskLayer disk), False)
            \<and> stales par' = [True]"
    by (simp add: flatten_parent_on_disk)
next
  assume a: "flatten d1 (DiffLayer p gp) = Inr ((d1', par1), res1, same1)"
  obtain r rpar where "res1 = (r, rpar)" by (cases res1)
  from flatten_frame [OF a [unfolded this]]
  have s: "stales par1 = (stales (DiffLayer p gp))[length (stales (DiffLayer p gp)) - 1 := True]"
    by simp
  have "stales par1 \<noteq> [] \<and> last (stales par1)"
    unfolding s by (rule set_last_True) simp
  then show "flatten d2 par1 = Inl (Panic ''parent diff layer is stale'')"
    by (simp add: flatten_bottom_stale)
qed

theorem flatten_twice_panics_witness:
  "last (stales (DiffLayer exD2 (DiffLayer (exD1\<lparr> stale := True \<rparr>) (DiskLayer exDisk))))
   \<and> flatten exD3 (DiffLayer exD2 (DiffLayer (exD1\<lparr> stale := True \<rparr>) (DiskLayer exDisk)))
        = Inl (Panic ''parent diff layer is stale'')
   \<and> \<not> last (stales (DiffLayer exD2 (DiffLayer exD1 (DiskLayer exDisk))))
   \<and> (\<exists>par' r. flatten exD3 (DiffLayer exD2 (DiffLayer exD1 (DiskLayer exDisk)))
                  = Inr ((exD3, par'), (r, DiskLayer exDisk), False)
        \<and> stales par' = [False, True])
   \<and> stale (exD1\<lparr> stale := True \<rparr>)
   \<and> flatten exD2 (DiffLayer (exD1\<lparr> stale := True \<rparr>) (DiskLayer exDisk))
        = Inl (Panic ''parent diff layer is stale'')
   \<and> \<not> stale exD1
   \<and> (\<exists>par1 r1.
        flatten exD2 (DiffLayer exD1 (DiskLayer exDisk))
          = Inr ((exD2, par1), (r1, DiskLayer exDisk), False)
        \<and> stales par1 = [True]
        \<and> flatten exD3 par1 = Inl (Panic ''parent diff layer is stale''))"
proof -
  have w: "last (stales (DiffLayer exD2 (DiffLayer (exD1\<lparr> stale := True \<rparr>) (DiskLayer exDisk))))"
    "\<not> last (stales (DiffLayer exD2 (DiffLayer exD1 (DiskLayer exDisk))))"
    "stale (exD1\<lparr> stale := True \<rparr>)" "\<not> stale exD1"
    by (simp_all add: exD1_def exD2_def)
  note t1 = flatten_twice_panics [where p = exD2 and dl = exD3
      and gp = "DiffLayer (exD1\<lparr> stale := True \<rparr>) (DiskLayer exDisk)",
      THEN conjunct1, rule_format, OF w(1)]
  from flatten_twice_panics [where p = exD2 and dl = exD3
      and gp = "DiffLayer exD1 (DiskLayer exDisk)",
      THEN conjunct2, THEN conjunct1, rule_format, OF w(2)]
  have t2: "\<exists>par' r. flatten exD3 (DiffLayer exD2 (DiffLayer exD1 (DiskLayer exDisk)))
                  = Inr ((exD3, par'), (r, DiskLayer exDisk), False)
        \<and> stales par' = [False, True]"
    by (simp add: exD1_def exD2_def)
  note t3 = flatten_twice_panics [where p = "exD1\<lparr> stale := True \<rparr>" and dl = exD2
      and disk = exDisk,
      THEN conjunct2, THEN conjunct2, THEN conjunct1, rule_format, OF w(3)]
  from flatten_twice_panics [where p = exD1 and dl = exD2 and disk = exDisk,
      THEN conjunct2, THEN conjunct2, THEN conjunct2, THEN conjunct1, rule_format, OF w(4)]
  obtain par1 r1 where
    f: "flatten exD2 (DiffLayer exD1 (DiskLayer exDisk))
          = Inr ((exD2, par1), (r1, DiskLayer exDisk), False)"
    and s: "stales par1 = [True]"
    by blast
  note t5 = flatten_twice_panics [where p = exD1 and gp = "DiskLayer exDisk" and ?d1.0 = exD2
      and ?d2.0 = exD3,
      THEN conjunct2, THEN conjunct2, THEN conjunct2, THEN conjunct2, rule_format, OF f]
  from w t1 t2 t3 f s t5 show ?thesis by blast
qed

text \<open>
  C5 as stated has \<^verbatim>\<open>flatten\<close> test and set the stale flag of the parent. With \<open>exD3\<close> on
  \<open>exD2\<close> on \<open>exD1\<close> on the disk layer, \<^verbatim>\<open>flatten\<close> of \<open>exD3\<close> over a parent \<open>exD2\<close> whose flag
  is already set does not panic: it succeeds, and sets the flag of \<open>exD1\<close> (updates and
  flattens alone do not lead to a stale layer on a diff layer, see \<open>flatten_staleOnDisk\<close>);
  and over a live parent \<open>exD2\<close> it succeeds and leaves the flag of \<open>exD2\<close> clear.
\<close>

theorem flatten_stale_parent_counterexample:
  "stale (exD2\<lparr> stale := True \<rparr>)
   \<and> map_sum id (stales \<circ> snd \<circ> fst)
       (flatten exD3 (DiffLayer (exD2\<lparr> stale := True \<rparr>) (DiffLayer exD1 (DiskLayer exDisk))))
     = Inr [True, True]
   \<and> \<not> stale exD2
   \<and> map_sum id (hd \<circ> stales \<circ> snd \<circ> fst)
       (flatten exD3 (DiffLayer exD2 (DiffLayer exD1 (DiskLayer exDisk)))) = Inr False"
  by (simp add: exD1_def exD2_def Let_def)

subsection \<open>C7: the sorted key views\<close>

text \<open>
  The first call of \<^verbatim>\<open>AccountList\<close> returns the account hashes of the layer in ascending
  order without repetition, caches the list, adds 32 bytes per hash to \<open>memory\<close>, and a
  second call returns the same list and changes nothing.
\<close>

lemma AccountList_first_call:
  assumes "accountList dl = None"
  shows "\<exists>l dl'. AccountList dl = (dl', l)
     \<and> sorted l \<and> distinct l \<and> set l = fset (fmdom (accountData dl))
     \<and> dl' = dl\<lparr> accountList := Some l,
                  memory := memory dl + word_of_nat (length l * HashLength) \<rparr>
     \<and> AccountList dl' = (dl', l)"
  using assms
  by (simp add: AccountList_def Let_def sort_Keys set_Keys distinct_Keys)
     (simp add: Keys_def sorted_list_of_fset.rep_eq)

text \<open>
  The first call of \<^verbatim>\<open>StorageList\<close> for an account of the layer returns the slot hashes
  in ascending order without repetition and caches the list, and a second call returns the
  same list and changes nothing. What it adds to \<open>memory\<close> is 32 bytes for each account
  that has a cached list by then, this one counted, and 32 more: the operand of \<^verbatim>\<open>len\<close> is
  the cache \<^verbatim>\<open>dl.storageList\<close>, a map, not the list just built.
\<close>

lemma StorageList_first_call:
  assumes "fmlookup (storageData dl) a = Some slots" and "fmlookup (storageList dl) a = None"
  shows "\<exists>l dl'. StorageList dl a = (dl', Some l)
     \<and> sorted l \<and> distinct l \<and> set l = fset (fmdom slots)
     \<and> dl' = dl\<lparr> storageList := fmupd a l (storageList dl),
                  memory := memory dl
                    + word_of_nat ((fcard (fmdom (storageList dl)) + 1) * HashLength
                                   + HashLength) \<rparr>
     \<and> StorageList dl' a = (dl', Some l)"
proof -
  from assms(2) have "a |\<notin>| fmdom (storageList dl)"
    by (simp add: fmdom_notI)
  then have "fcard (finsert a (fmdom (storageList dl))) = fcard (fmdom (storageList dl)) + 1"
    by (simp add: fcard_finsert_disjoint)
  with assms show ?thesis
    by (simp add: StorageList_def Let_def sort_Keys set_Keys distinct_Keys)
       (simp add: Keys_def sorted_list_of_fset.rep_eq algebra_simps)
qed

text \<open>
  C7 on the layer \<open>exS\<close>, which holds three slots of the account \<open>hashOf 1\<close> and has no
  cached list: the first \<^verbatim>\<open>StorageList\<close> returns the three slot hashes in order and caches
  them, and adds 64 to \<open>memory\<close>; the size of the list is 96 bytes.
\<close>

theorem StorageList_memory_failing_input:
  "StorageList exS (hashOf 1)
     = (exS\<lparr> storageList := fmupd (hashOf 1) [hashOf 7, hashOf 8, hashOf 9] fmempty,
             memory := memory exS + 64 \<rparr>,
        Some [hashOf 7, hashOf 8, hashOf 9])
   \<and> word_of_nat (length [hashOf 7, hashOf 8, hashOf 9] * HashLength) = (96 :: 64 word)"
  by (simp add: StorageList_def exS_def Let_def Keys_fmupd SortFunc_def Cmp_def HashLength_def
      fcard_finsert_disjoint fcard_fempty)

subsection \<open>C8: the integer constant\<close>

text \<open>
  \<^verbatim>\<open>bloomSize\<close> and \<^verbatim>\<open>bloomFuncs\<close> are computed in 64-bit floating point and are not
  modelled. The item limit is an unsigned 64-bit division.
\<close>

lemma aggregatorItemLimit_value: "aggregatorItemLimit = 99864"
  by (simp add: aggregatorItemLimit_def aggregatorMemoryLimit_def)

subsection \<open>C9: the decoded account of an empty blob\<close>



subsection \<open>C10: the stale flags after flatten\<close>

text \<open>
  C10, as the code has it. A successful \<^verbatim>\<open>flatten\<close> on a layer with a diff parent leaves the
  layer it was called on as it was, its stale flag included; among the layers of the
  parent chain it sets the stale flag of the bottom-most diff layer and of no other: of
  the parent itself when the parent sits on the disk layer, and not of the parent when
  the parent has a diff parent of its own. The returned layer has a clear stale flag and
  no cached key lists. A reader of the layer \<^verbatim>\<open>flatten\<close> was called on still gets, after
  the call, the accounts that layer holds itself.
\<close>

theorem flatten_stale_flags:
  assumes "flatten dl (DiffLayer p gp) = Inr ((dl', par'), (r, rpar), same)"
  shows "dl' = dl
     \<and> \<not> stale r \<and> accountList r = None \<and> storageList r = fmempty
     \<and> stales par' = (stales (DiffLayer p gp))[length (stales gp) := True]
     \<and> (stales gp = [] \<longrightarrow> stales par' = [True])
     \<and> (\<not> stale dl \<longrightarrow> ContainsHash (diffed dl) (accountBloomHash g h)
          \<longrightarrow> fmlookup (accountData dl) h = Some v
          \<longrightarrow> AccountRLP g dl' par' h = Inr v)"
proof -
  from flatten_frame [OF assms]
  have "dl' = dl" "\<not> stale r" "accountList r = None" "storageList r = fmempty"
    "stales par' = (stales (DiffLayer p gp))[length (stales gp) := True]"
    by simp_all
  then show ?thesis
    by (simp add: AccountRLP_def accountRLP.simps [of dl])
qed

theorem flatten_stale_flags_witness:
  "\<exists>par' r rpar.
     flatten exD2 (DiffLayer exD1 (DiskLayer exDisk)) = Inr ((exD2, par'), (r, rpar), False)
     \<and> \<not> stale exD2 \<and> stales par' = [True] \<and> \<not> stale r
     \<and> accountList r = None \<and> storageList r = fmempty
     \<and> AccountRLP exG exD2 par' (hashOf 1) = Inr (Some [3])"
proof -
  obtain par' r rpar where
    f: "flatten exD2 (DiffLayer exD1 (DiskLayer exDisk)) = Inr ((exD2, par'), (r, rpar), False)"
    by (simp add: flatten_parent_on_disk exD1_def)
  have h: "\<not> stale exD2" "ContainsHash (diffed exD2) (accountBloomHash exG (hashOf 1))"
    "fmlookup (accountData exD2) (hashOf 1) = Some (Some [3])"
    by (simp_all add: exD2_def ContainsHash_def exProbes_def)
  from flatten_stale_flags [OF f, of exG "hashOf 1" "Some [3]"] h f
  show ?thesis by simp
qed

text \<open>
  C10 as stated has \<^verbatim>\<open>flatten\<close> set the stale flag of the parent, and of the parent only.
  With \<open>exD3\<close> on \<open>exD2\<close> on \<open>exD1\<close> on the disk layer, \<^verbatim>\<open>flatten\<close> of \<open>exD3\<close> leaves the
  flag of the parent \<open>exD2\<close> clear and sets the flag of the grandparent \<open>exD1\<close>.
\<close>

theorem flatten_parent_stale_counterexample:
  "map_sum id (stales \<circ> snd \<circ> fst)
     (flatten exD3 (DiffLayer exD2 (DiffLayer exD1 (DiskLayer exDisk)))) = Inr [False, True]"
  by (simp add: exD1_def exD2_def Let_def)

end
